theory Spec2Isabelle
  imports Main "HOL-Library.AList"
begin

section \<open>Text primitives used by the chunker\<close>

text \<open>
  Page text is a \<open>string\<close>: one \<open>char\<close> stands for one code point of the Python
  \<open>str\<close>, for the code points 0 to 255, so \<open>length\<close> is Python's \<open>len\<close> on that
  range. \<open>is_space\<close> lists the code points below 256 for which \<open>str.isspace\<close> holds;
  these are the characters \<open>str.strip()\<close> removes.
\<close>

definition is_space :: "char \<Rightarrow> bool" where
  "is_space c = (of_char c \<in> {9, 10, 11, 12, 13, 28, 29, 30, 31, 32, 133, 160 :: nat})"

text \<open>\<open>s.strip()\<close>: leading and trailing whitespace removed.\<close>

definition strip :: "string \<Rightarrow> string" where
  "strip s = dropWhile is_space (rev (dropWhile is_space (rev s)))"

text \<open>
  \<open>text.split('\n\n')\<close>: a left-to-right scan for non-overlapping occurrences of the
  separator; \<open>cur\<close> is the piece read so far. The result always has at least one piece.
\<close>

fun split_blank :: "string \<Rightarrow> string \<Rightarrow> string list" where
  "split_blank cur [] = [cur]"
| "split_blank cur [c] = [cur @ [c]]"
| "split_blank cur (c # d # cs) =
     (if c = CHR 0x0A \<and> d = CHR 0x0A then cur # split_blank [] cs
      else split_blank (cur @ [c]) (d # cs))"

text \<open>The character class \<open>[.!?]\<close> of the sentence pattern.\<close>

definition is_terminator :: "char \<Rightarrow> bool" where
  "is_terminator c = (c = CHR ''.'' \<or> c = CHR ''!'' \<or> c = CHR ''?'')"

text \<open>
  \<open>re.split(r'[.!?]+', s)\<close>: the pieces of \<open>s\<close> between maximal runs of terminators;
  a run at either end of \<open>s\<close> leaves an empty piece there.
\<close>

function re_split :: "string \<Rightarrow> string \<Rightarrow> string list" where
  "re_split cur [] = [cur]"
| "re_split cur (c # cs) =
     (if is_terminator c then cur # re_split [] (dropWhile is_terminator cs)
      else re_split (cur @ [c]) cs)"
  by pat_completeness auto
termination
  by (relation "measure (\<lambda>(cur, s). length s)")
     (auto simp: le_imp_less_Suc length_dropWhile_le)


section \<open>The semantic chunker\<close>

text \<open>
  \<open>Document\<close> of langchain: the page text and its metadata (kept abstract).
\<close>

record 'm document =
  page_content :: string
  metadata :: 'm

text \<open>
  Lines 107-108 of \<open>services/rag.py\<close> (90-91 of \<open>Final/main.py\<close>):
  \<^verbatim>\<open>sentences = re.split(r'[.!?]+', current_chunk)\<close>,
  \<^verbatim>\<open>overlap = sentences[-1].strip() if len(sentences) > 1 else ""\<close>.
\<close>

definition overlap_seed :: "string \<Rightarrow> string" where
  "overlap_seed current_chunk =
     (let sentences = re_split [] current_chunk
      in if length sentences > 1 then strip (last sentences) else [])"

text \<open>
  One iteration of the loop over the paragraphs of a page. The state is the pair
  (\<open>current_chunk\<close>, \<open>semantic_chunks\<close>); \<open>md\<close> is the metadata of the page.
\<close>

definition chunk_step ::
  "'m \<Rightarrow> string \<times> 'm document list \<Rightarrow> string \<Rightarrow> string \<times> 'm document list" where
  "chunk_step md st para0 =
     (let current_chunk = fst st; semantic_chunks = snd st; para = strip para0
      in if para = [] then st
         else if length current_chunk + length para > 2000 \<and> current_chunk \<noteq> [] then
           (let overlap = overlap_seed current_chunk
            in (if overlap \<noteq> [] then overlap @ '' '' @ para else para,
                semantic_chunks @
                  [\<lparr>page_content = strip current_chunk, metadata = md\<rparr>]))
         else (if current_chunk \<noteq> [] then current_chunk @ '' '' @ para else para,
               semantic_chunks))"

text \<open>
  The body of the loop over the pages: the paragraphs of one page are folded from an
  empty buffer, and what the buffer holds at the end of the page is emitted.
\<close>

definition chunk_page :: "'m document list \<Rightarrow> 'm document \<Rightarrow> 'm document list" where
  "chunk_page semantic_chunks doc =
     (let st = foldl (chunk_step (metadata doc)) ([], semantic_chunks)
                 (split_blank [] (page_content doc));
          current_chunk = fst st
      in if strip current_chunk \<noteq> [] then
           snd st @ [\<lparr>page_content = strip current_chunk, metadata = metadata doc\<rparr>]
         else snd st)"

definition semantic_chunk_documents :: "'m document list \<Rightarrow> 'm document list" where
  "semantic_chunk_documents docs =
     filter (\<lambda>chunk. length (page_content chunk) > 100) (foldl chunk_page [] docs)"


section \<open>Values, exceptions and the flat-file store\<close>

text \<open>
  The dictionaries and lists the services return, as Python values. Metadata of a page
  is kept abstract (\<open>PyMeta\<close>).
\<close>

datatype 'm pyval =
    PyNone
  | PyBool bool
  | PyInt int
  | PyStr string
  | PyMeta 'm
  | PyList "'m pyval list"
  | PyDict "(string \<times> 'm pyval) list"

text \<open>
  Exceptions carry the text \<open>str(e)\<close> gives. \<open>Error\<close> is any exception raised by
  a loader, the vector store or the question-answering chain.
\<close>

datatype exn = ValueError string | ZeroDivisionError string | Error string

fun str_exn :: "exn \<Rightarrow> string" where
  "str_exn (ValueError m) = m"
| "str_exn (ZeroDivisionError m) = m"
| "str_exn (Error m) = m"

text \<open>\<open>{"success": False, "error": msg}\<close>, the error result of the service methods.\<close>

definition failure :: "string \<Rightarrow> 'm pyval" where
  "failure msg = PyDict [(''success'', PyBool False), (''error'', PyStr msg)]"

text \<open>\<open>d[key]\<close> on a returned dictionary; \<open>None\<close> is Python's \<open>KeyError\<close>.\<close>

fun item :: "'m pyval \<Rightarrow> string \<Rightarrow> 'm pyval option" where
  "item (PyDict kvs) key = map_of kvs key"
| "item _ key = None"

text \<open>
  \<open>models/schemas.py\<close>: the enumeration \<open>SubscriptionTier\<close>, and its constructor
  from a value, which raises \<open>ValueError\<close> for any other string (the message is the
  one for a value that \<open>repr\<close> prints unescaped).
\<close>

datatype SubscriptionTier = BASIC | STANDARD | PREMIUM | PLATINUM

definition SubscriptionTier_of :: "string \<Rightarrow> exn + SubscriptionTier" where
  "SubscriptionTier_of v =
     (if v = ''Basic'' then Inr BASIC
      else if v = ''Standard'' then Inr STANDARD
      else if v = ''Premium'' then Inr PREMIUM
      else if v = ''Platinum'' then Inr PLATINUM
      else Inl (ValueError (CHR 0x27 # v @ CHR 0x27 # '' is not a valid SubscriptionTier'')))"

text \<open>\<open>SubscriptionService.TIER_LIMITS[tier]["features"]\<close>.\<close>

fun TIER_LIMITS_features :: "SubscriptionTier \<Rightarrow> string list" where
  "TIER_LIMITS_features BASIC = [''chat_advice'', ''case_study_limited'']"
| "TIER_LIMITS_features STANDARD = [''chat_advice'', ''case_study_unlimited'']"
| "TIER_LIMITS_features PREMIUM =
     [''chat_advice'', ''case_study_unlimited'', ''expert_advice_limited'']"
| "TIER_LIMITS_features PLATINUM =
     [''chat_advice'', ''case_study_unlimited'', ''expert_advice_unlimited'']"

text \<open>
  A user record of \<open>users.json\<close>; only the tier is read here, and the key may be
  missing (\<open>user.get("subscription_tier", "Basic")\<close>).
\<close>

record user =
  subscription_tier :: "string option"

definition check_feature_access :: "(string \<rightharpoonup> user) \<Rightarrow> string \<Rightarrow> string \<Rightarrow> exn + bool" where
  "check_feature_access users user_id feature =
     (case users user_id of
        None \<Rightarrow> Inr False
      | Some u \<Rightarrow>
          (case SubscriptionTier_of
                  (case subscription_tier u of None \<Rightarrow> ''Basic'' | Some t \<Rightarrow> t) of
             Inl e \<Rightarrow> Inl e
           | Inr tier \<Rightarrow> Inr (feature \<in> set (TIER_LIMITS_features tier))))"

text \<open>
  A record of \<open>document_sets.json\<close>, with the six keys \<open>process_and_store_documents\<close>
  writes. \<open>ds_created_at\<close> is the clock reading, opaque here.
\<close>

record document_set =
  ds_id :: string
  ds_user_id :: string
  ds_file_paths :: "string list"
  ds_chunk_count :: nat
  ds_created_at :: int
  ds_status :: string

text \<open>
  The file \<open>document_sets.json\<close> is a dictionary from identifiers to records: an
  association list in insertion order. Assignment to a key replaces the value in place or
  appends (\<open>AList.update\<close>), \<open>del\<close> removes the key, \<open>.get\<close> is \<open>map_of\<close>.
\<close>

type_synonym registry = "(string \<times> document_set) list"

definition db_store_document_set :: "registry \<Rightarrow> document_set \<Rightarrow> registry" where
  "db_store_document_set document_sets document_set =
     AList.update (ds_id document_set) document_set document_sets"

definition db_get_document_set :: "registry \<Rightarrow> string \<Rightarrow> document_set option" where
  "db_get_document_set document_sets document_set_id = map_of document_sets document_set_id"

definition db_get_user_document_sets :: "registry \<Rightarrow> string \<Rightarrow> document_set list" where
  "db_get_user_document_sets document_sets user_id =
     filter (\<lambda>ds. ds_user_id ds = user_id) (map snd document_sets)"

definition db_delete_document_set :: "registry \<Rightarrow> string \<Rightarrow> registry" where
  "db_delete_document_set document_sets document_set_id =
     (if document_set_id \<in> set (map fst document_sets)
      then AList.delete document_set_id document_sets else document_sets)"


section \<open>The RAG service\<close>

text \<open>
  The external collaborators of \<open>RAGService\<close>. \<open>pc\<close>, \<open>embeddings\<close> and \<open>llm\<close>
  say whether the attribute was set by the constructor. The vector index has an abstract
  content \<open>'x\<close>: \<open>from_documents\<close> embeds and writes one batch under a namespace and
  may raise, leaving some new content behind; \<open>from_existing_index\<close> opens the index
  and may raise; \<open>invoke\<close> runs the chain (embedding of the question, search for the
  \<open>k\<close> nearest chunks of the namespace, call of the language model) and yields the answer
  with the retrieved chunks, or raises.
\<close>

record ('m, 'x) backends =
  pc :: bool
  embeddings :: bool
  llm :: bool
  splitext_lower :: "string \<Rightarrow> string"
  PyPDFLoader :: "string \<Rightarrow> exn + 'm document list"
  Docx2txtLoader :: "string \<Rightarrow> exn + 'm document list"
  from_documents :: "'x \<Rightarrow> string \<Rightarrow> 'm document list \<Rightarrow> exn option \<times> 'x"
  from_existing_index :: "'x \<Rightarrow> string \<Rightarrow> exn option"
  invoke :: "'x \<Rightarrow> string \<Rightarrow> int \<Rightarrow> string \<Rightarrow> exn + string \<times> 'm document list"

text \<open>The calls made to the collaborators, in order.\<close>

datatype 'm call =
    Load string
  | FromDocuments string "'m document list"
  | FromExistingIndex string
  | Invoke string int string

record ('m, 'x) state =
  users :: "string \<rightharpoonup> user"
  document_sets :: registry
  pinecone :: 'x
  calls :: "'m call list"

definition load_documents :: "('m, 'x) backends \<Rightarrow> string \<Rightarrow> exn + 'm document list" where
  "load_documents B file_path =
     (let ext = splitext_lower B file_path
      in if ext = ''.pdf'' then PyPDFLoader B file_path
         else if ext = ''.docx'' then Docx2txtLoader B file_path
         else Inl (ValueError (''Unsupported file format: '' @ ext)))"

text \<open>The loop that loads every file; the first exception ends it.\<close>

fun load_all ::
  "('m, 'x) backends \<Rightarrow> string list \<Rightarrow> 'm document list \<Rightarrow> 'm call list
     \<Rightarrow> (exn + 'm document list) \<times> 'm call list" where
  "load_all B [] all_docs log = (Inr all_docs, log)"
| "load_all B (fp # fps) all_docs log =
     (case load_documents B fp of
        Inl e \<Rightarrow> (Inl e, log @ [Load fp])
      | Inr docs \<Rightarrow> load_all B fps (all_docs @ docs) (log @ [Load fp]))"

text \<open>
  \<open>chunks[i:i+batch_size]\<close> for \<open>i\<close> in \<open>range(0, len(chunks), batch_size)\<close>, for a
  positive step; a negative step gives an empty range. A step of zero raises before the
  loop and is handled where the loop is called.
\<close>

function batches :: "nat \<Rightarrow> 'a list \<Rightarrow> 'a list list" where
  "batches n xs = (if n = 0 \<or> xs = [] then [] else take n xs # batches n (drop n xs))"
  by pat_completeness auto
termination
  by (relation "measure (\<lambda>(n, xs). length xs)") auto

declare batches.simps [simp del]

definition batch_list :: "int \<Rightarrow> 'a list \<Rightarrow> 'a list list" where
  "batch_list batch_size chunks = (if batch_size \<le> 0 then [] else batches (nat batch_size) chunks)"

text \<open>The loop that writes the batches one after the other; the first exception ends it.\<close>

fun store_batches ::
  "('m, 'x) backends \<Rightarrow> string \<Rightarrow> 'm document list list \<Rightarrow> 'x \<Rightarrow> 'm call list
     \<Rightarrow> exn option \<times> 'x \<times> 'm call list" where
  "store_batches B namespace [] idx log = (None, idx, log)"
| "store_batches B namespace (batch_chunks # rest) idx log =
     (case from_documents B idx namespace batch_chunks of
        (Some e, idx') \<Rightarrow> (Some e, idx', log @ [FromDocuments namespace batch_chunks])
      | (None, idx') \<Rightarrow>
          store_batches B namespace rest idx' (log @ [FromDocuments namespace batch_chunks]))"

text \<open>
  The \<^verbatim>\<open>try\<close> block of \<open>process_and_store_documents\<close> (lines 171-224), with its
  handler. \<open>uuid_hex\<close> is \<open>uuid.uuid4().hex\<close> and \<open>now\<close> is \<open>time.time()\<close> as the
  call draws them. The text of the division error is CPython's.
\<close>

definition process_and_store_documents_try ::
  "('m, 'x) backends \<Rightarrow> ('m, 'x) state \<Rightarrow> string list \<Rightarrow> string \<Rightarrow> int \<Rightarrow> string \<Rightarrow> int
     \<Rightarrow> 'm pyval \<times> ('m, 'x) state" where
  "process_and_store_documents_try B st file_paths user_id batch_size uuid_hex now =
     (case load_all B file_paths [] (calls st) of
        (Inl e, log) \<Rightarrow>
          (failure (''Error processing documents: '' @ str_exn e), st\<lparr>calls := log\<rparr>)
      | (Inr all_docs, log) \<Rightarrow>
          (let chunks = semantic_chunk_documents all_docs;
               namespace = ''user_'' @ user_id @ ''_'' @ take 8 uuid_hex
           in if batch_size = 0 then
                (failure (''Error processing documents: '' @
                   str_exn (ZeroDivisionError ''integer division or modulo by zero'')),
                 st\<lparr>calls := log\<rparr>)
              else
                (case store_batches B namespace (batch_list batch_size chunks)
                        (pinecone st) log of
                   (Some e, idx, log') \<Rightarrow>
                     (failure (''Error processing documents: '' @ str_exn e),
                      st\<lparr>pinecone := idx, calls := log'\<rparr>)
                 | (None, idx, log') \<Rightarrow>
                     (let document_set =
                            \<lparr>ds_id = namespace, ds_user_id = user_id,
                             ds_file_paths = file_paths, ds_chunk_count = length chunks,
                             ds_created_at = now, ds_status = ''ready''\<rparr>
                      in (PyDict [(''success'', PyBool True),
                                  (''namespace'', PyStr namespace),
                                  (''chunks_created'', PyInt (int (length chunks))),
                                  (''message'',
                                   PyStr ''Documents successfully processed and indexed'')],
                          st\<lparr>document_sets :=
                                db_store_document_set (document_sets st) document_set,
                              pinecone := idx, calls := log'\<rparr>)))))"

text \<open>
  \<open>RAGService.process_and_store_documents\<close>. The feature check is outside the
  \<^verbatim>\<open>try\<close> block, so an exception of \<open>check_feature_access\<close> reaches the caller
  (\<open>Inl\<close>).
\<close>

definition process_and_store_documents ::
  "('m, 'x) backends \<Rightarrow> ('m, 'x) state \<Rightarrow> string list \<Rightarrow> string \<Rightarrow> int \<Rightarrow> string \<Rightarrow> int
     \<Rightarrow> (exn + 'm pyval) \<times> ('m, 'x) state" where
  "process_and_store_documents B st file_paths user_id batch_size uuid_hex now =
     (case check_feature_access (users st) user_id ''document_upload'' of
        Inl e \<Rightarrow> (Inl e, st)
      | Inr granted \<Rightarrow>
          if \<not> granted then
            (Inr (failure ''Document upload not available for your subscription tier''), st)
          else if \<not> pc B then
            (Inr (failure
               ''Pinecone not configured. Please add PINECONE_API_KEY to environment.''), st)
          else if \<not> embeddings B then
            (Inr (failure
               ''Embeddings model not available. Please check network connection.''), st)
          else
            (let r = process_and_store_documents_try B st file_paths user_id batch_size
                       uuid_hex now
             in (Inr (fst r), snd r)))"

text \<open>
  One entry of \<open>sources\<close>: the first 300 characters of the chunk, with an ellipsis when
  it is longer, and the metadata.
\<close>

definition format_source :: "'m document \<Rightarrow> 'm pyval" where
  "format_source doc =
     PyDict [(''content'',
              PyStr (take 300 (page_content doc) @
                     (if length (page_content doc) > 300 then ''...'' else []))),
             (''metadata'', PyMeta (metadata doc))]"

text \<open>\<open>RAGService.query_documents\<close>.\<close>

definition query_documents ::
  "('m, 'x) backends \<Rightarrow> ('m, 'x) state \<Rightarrow> string \<Rightarrow> string \<Rightarrow> string \<Rightarrow> int
     \<Rightarrow> 'm pyval \<times> ('m, 'x) state" where
  "query_documents B st query namespace user_id k =
     (if \<not> pc B then (failure ''Pinecone not configured'', st)
      else if \<not> embeddings B then (failure ''Embeddings model not available'', st)
      else if \<not> llm B then (failure ''LLM not available'', st)
      else
        (case db_get_document_set (document_sets st) namespace of
           None \<Rightarrow> (failure ''Document set not found or access denied'', st)
         | Some document_set \<Rightarrow>
             if ds_user_id document_set \<noteq> user_id then
               (failure ''Document set not found or access denied'', st)
             else
               (case from_existing_index B (pinecone st) namespace of
                  Some e \<Rightarrow>
                    (failure (''Error querying documents: '' @ str_exn e),
                     st\<lparr>calls := calls st @ [FromExistingIndex namespace]\<rparr>)
                | None \<Rightarrow>
                    (case invoke B (pinecone st) namespace k query of
                       Inl e \<Rightarrow>
                         (failure (''Error querying documents: '' @ str_exn e),
                          st\<lparr>calls := calls st @
                                [FromExistingIndex namespace, Invoke namespace k query]\<rparr>)
                     | Inr (result, source_documents) \<Rightarrow>
                         (PyDict [(''success'', PyBool True),
                                  (''answer'', PyStr result),
                                  (''sources'', PyList (map format_source source_documents)),
                                  (''namespace'', PyStr namespace)],
                          st\<lparr>calls := calls st @
                                [FromExistingIndex namespace, Invoke namespace k query]\<rparr>)))))"

definition get_user_document_sets :: "('m, 'x) state \<Rightarrow> string \<Rightarrow> document_set list" where
  "get_user_document_sets st user_id = db_get_user_document_sets (document_sets st) user_id"

text \<open>\<open>RAGService.delete_document_set\<close>.\<close>

definition delete_document_set ::
  "('m, 'x) state \<Rightarrow> string \<Rightarrow> string \<Rightarrow> 'm pyval \<times> ('m, 'x) state" where
  "delete_document_set st namespace user_id =
     (case db_get_document_set (document_sets st) namespace of
        None \<Rightarrow> (failure ''Document set not found or access denied'', st)
      | Some document_set \<Rightarrow>
          if ds_user_id document_set \<noteq> user_id then
            (failure ''Document set not found or access denied'', st)
          else
            (PyDict [(''success'', PyBool True),
                     (''message'', PyStr ''Document set deleted successfully'')],
             st\<lparr>document_sets := db_delete_document_set (document_sets st) namespace\<rparr>))"


section \<open>The query entry points\<close>

text \<open>
  The route \<open>POST /rag/query\<close> of \<open>routes/rag.py\<close>. \<open>HTTPException\<close> carries the
  status code and the detail; \<open>KeyError\<close> stands for a missing key of the result.
\<close>

datatype http_error = HTTPException nat string | KeyError string

definition route_query_documents ::
  "('m, 'x) backends \<Rightarrow> ('m, 'x) state \<Rightarrow> string \<Rightarrow> string \<Rightarrow> int \<Rightarrow> string
     \<Rightarrow> (http_error + 'm pyval) \<times> ('m, 'x) state" where
  "route_query_documents B st namespace query k current_user_id =
     (if strip query = [] then (Inl (HTTPException 400 ''Query cannot be empty''), st)
      else
        (let r = query_documents B st query namespace current_user_id (min k 10);
             result = fst r
         in if item result ''success'' \<noteq> Some (PyBool True) then
              (case item result ''error'' of
                 Some (PyStr detail) \<Rightarrow> (Inl (HTTPException 400 detail), snd r)
               | _ \<Rightarrow> (Inl (KeyError ''error''), snd r))
            else
              (case (item result ''answer'', item result ''sources'', item result ''namespace'') of
                 (Some a, Some s, Some n) \<Rightarrow>
                   (Inr (PyDict [(''success'', PyBool True), (''answer'', a), (''sources'', s),
                                 (''namespace'', n), (''query'', PyStr query)]), snd r)
               | _ \<Rightarrow> (Inl (KeyError ''answer''), snd r))))"

text \<open>
  \<open>retrieve_and_answer\<close> of \<open>Final/main.py\<close>, which the route \<open>POST /query\<close> of that
  module returns unchanged. The index is opened before the \<^verbatim>\<open>try\<close> block; only the
  call of the chain and the formatting of the sources are inside it. An exception that
  reaches the caller is \<open>Inl\<close>.
\<close>

definition snippet :: "'m document \<Rightarrow> 'm pyval" where
  "snippet doc =
     PyDict [(''snippet'',
              PyStr (take 200 (page_content doc) @
                     (if length (page_content doc) > 200 then ''...'' else [])))]"

definition retrieve_and_answer ::
  "('m, 'x) backends \<Rightarrow> ('m, 'x) state \<Rightarrow> string \<Rightarrow> string
     \<Rightarrow> (exn + 'm pyval) \<times> ('m, 'x) state" where
  "retrieve_and_answer B st query namespace =
     (case from_existing_index B (pinecone st) namespace of
        Some e \<Rightarrow> (Inl e, st\<lparr>calls := calls st @ [FromExistingIndex namespace]\<rparr>)
      | None \<Rightarrow>
          (case invoke B (pinecone st) namespace 5 query of
             Inl e \<Rightarrow>
               (Inr (PyDict [(''answer'', PyNone), (''sources'', PyList []),
                             (''error'', PyStr (str_exn e))]),
                st\<lparr>calls := calls st @
                      [FromExistingIndex namespace, Invoke namespace 5 query]\<rparr>)
           | Inr (result, source_documents) \<Rightarrow>
               (Inr (PyDict [(''answer'', PyStr result),
                             (''sources'', PyList (map snippet source_documents))]),
                st\<lparr>calls := calls st @
                      [FromExistingIndex namespace, Invoke namespace 5 query]\<rparr>)))"


section \<open>Notions used in the statements\<close>

text \<open>The values of \<open>k\<close> handed to the chain by the calls of a log.\<close>

definition retrieved_k :: "'m call list \<Rightarrow> int list" where
  "retrieved_k log = concat (map (\<lambda>c. case c of Invoke ns k q \<Rightarrow> [k] | _ \<Rightarrow> []) log)"


text \<open>
  The shape of a registry entry written by \<open>process_and_store_documents\<close>: the key is
  the identifier of the record, and it is \<open>user_\<close>, the owner, an underscore and eight
  more characters.
\<close>

definition owner_key :: "string \<Rightarrow> document_set \<Rightarrow> bool" where
  "owner_key key d =
     (key = ds_id d \<and> 8 \<le> length key
      \<and> key = ''user_'' @ ds_user_id d @ ''_'' @ drop (length key - 8) key)"

definition registry_wf :: "registry \<Rightarrow> bool" where
  "registry_wf db = list_all (\<lambda>(key, d). owner_key key d) db"



text \<open>
  The buffer after one paragraph, and two observations of the paragraph loop run from a
  buffer over the pieces of a page: \<open>seed_free\<close> holds when every buffer emitted inside
  the page leaves an empty overlap seed, \<open>exact_fill_free\<close> when no paragraph is joined
  to a buffer whose length and its own add up to exactly 2000.
\<close>

definition next_buffer :: "string \<Rightarrow> string \<Rightarrow> string" where
  "next_buffer current_chunk para0 = fst (chunk_step () (current_chunk, []) para0)"

fun seed_free :: "string \<Rightarrow> string list \<Rightarrow> bool" where
  "seed_free current_chunk [] = True"
| "seed_free current_chunk (para0 # rest) =
     ((strip para0 \<noteq> [] \<and> length current_chunk + length (strip para0) > 2000
         \<and> current_chunk \<noteq> [] \<longrightarrow> overlap_seed current_chunk = [])
      \<and> seed_free (next_buffer current_chunk para0) rest)"

fun exact_fill_free :: "string \<Rightarrow> string list \<Rightarrow> bool" where
  "exact_fill_free current_chunk [] = True"
| "exact_fill_free current_chunk (para0 # rest) =
     (\<not> (strip para0 \<noteq> [] \<and> current_chunk \<noteq> []
          \<and> length current_chunk + length (strip para0) = 2000)
      \<and> exact_fill_free (next_buffer current_chunk para0) rest)"

definition no_seed_carried :: "'m document \<Rightarrow> bool" where
  "no_seed_carried doc = seed_free [] (split_blank [] (page_content doc))"

definition no_exact_fill :: "'m document \<Rightarrow> bool" where
  "no_exact_fill doc = exact_fill_free [] (split_blank [] (page_content doc))"


section \<open>An example configuration\<close>

text \<open>
  A configuration for the examples: every file is a PDF of two pages, each page one
  paragraph; the index content is the list of batches written; the write of a batch
  fails once a batch is already in the index when \<open>flaky\<close> is set.
\<close>

type_synonym example_index = "(string \<times> unit document list) list"

definition example_pages :: "unit document list" where
  "example_pages =
     [\<lparr>page_content = replicate 150 CHR ''x'', metadata = ()\<rparr>,
      \<lparr>page_content = replicate 120 CHR ''y'', metadata = ()\<rparr>]"

definition example_backends :: "bool \<Rightarrow> (unit, example_index) backends" where
  "example_backends flaky =
     \<lparr>pc = True, embeddings = True, llm = True,
      splitext_lower = (\<lambda>p. ''.pdf''),
      PyPDFLoader = (\<lambda>p. Inr example_pages),
      Docx2txtLoader = (\<lambda>p. Inr []),
      from_documents = (\<lambda>idx ns b.
        if flaky \<and> idx \<noteq> [] then (Some (Error ''write timed out''), idx)
        else (None, idx @ [(ns, b)])),
      from_existing_index = (\<lambda>idx ns. None),
      invoke = (\<lambda>idx ns k q.
        if flaky then Inl (Error ''model unavailable'')
        else Inr (''I cannot find this information in the provided documents.'', []))\<rparr>"

definition example_state :: "(unit, example_index) state" where
  "example_state =
     \<lparr>users = [''alice'' \<mapsto> \<lparr>subscription_tier = Some ''Platinum''\<rparr>,
               ''bob'' \<mapsto> \<lparr>subscription_tier = Some ''Basic''\<rparr>],
      document_sets =
        [(''user_bob_0a1b2c3d'',
          \<lparr>ds_id = ''user_bob_0a1b2c3d'', ds_user_id = ''bob'', ds_file_paths = [''lease.pdf''],
           ds_chunk_count = 2, ds_created_at = 1700000000, ds_status = ''ready''\<rparr>)],
      pinecone = [],
      calls = []\<rparr>"



section \<open>Pages are chunked independently and in order\<close>

lemma chunk_step_acc:
  "chunk_step md (cur, acc @ out) p =
     (fst (chunk_step md (cur, out) p), acc @ snd (chunk_step md (cur, out) p))"
  by (simp add: chunk_step_def Let_def)

lemma foldl_chunk_step_acc:
  "foldl (chunk_step md) (cur, acc @ out) ps =
     (fst (foldl (chunk_step md) (cur, out) ps),
      acc @ snd (foldl (chunk_step md) (cur, out) ps))"
proof (induction ps arbitrary: cur out)
  case Nil
  show ?case by simp
next
  case (Cons p ps)
  obtain cur' out' where step: "chunk_step md (cur, out) p = (cur', out')"
    by (cases "chunk_step md (cur, out) p")
  have "chunk_step md (cur, acc @ out) p = (cur', acc @ out')"
    using chunk_step_acc [of md cur acc out p] step by simp
  with step Cons.IH [of cur' out'] show ?case by simp
qed

lemma chunk_page_acc: "chunk_page acc doc = acc @ chunk_page [] doc"
  using foldl_chunk_step_acc [of "metadata doc" "[]" acc "[]"]
  by (simp add: chunk_page_def Let_def)

lemma foldl_chunk_page_acc:
  "foldl chunk_page acc docs = acc @ concat (map (chunk_page []) docs)"
proof (induction docs arbitrary: acc)
  case Nil
  show ?case by simp
next
  case (Cons d ds)
  have "foldl chunk_page acc (d # ds) = foldl chunk_page (chunk_page acc d) ds"
    by simp
  also have "\<dots> = chunk_page acc d @ concat (map (chunk_page []) ds)"
    by (rule Cons.IH)
  also have "\<dots> = acc @ concat (map (chunk_page []) (d # ds))"
    using chunk_page_acc [of acc d] by simp
  finally show ?case .
qed

lemma semantic_chunk_documents_concat:
  "semantic_chunk_documents docs =
     concat (map (\<lambda>d. semantic_chunk_documents [d]) docs)"
proof -
  have "semantic_chunk_documents [d] =
          filter (\<lambda>chunk. length (page_content chunk) > 100) (chunk_page [] d)" for d :: "'a document"
    by (simp add: semantic_chunk_documents_def)
  then show ?thesis
    using foldl_chunk_page_acc [of "[]" docs]
    by (simp add: semantic_chunk_documents_def filter_concat comp_def)
qed

text \<open>
  C7. The chunker treats every page on its own and keeps the input order: chunking a
  concatenation of two page sequences gives the concatenation of their chunk sequences,
  the output is the per-page chunk groups in page order, and selecting or permuting pages
  by an index list \<open>is\<close> selects or permutes the groups in the same way.
\<close>

theorem semantic_chunk_documents_order:
  "semantic_chunk_documents (A @ B) = semantic_chunk_documents A @ semantic_chunk_documents B
   \<and> semantic_chunk_documents docs = concat (map (\<lambda>d. semantic_chunk_documents [d]) docs)
   \<and> semantic_chunk_documents (map ((!) docs) is) =
       concat (map (\<lambda>i. semantic_chunk_documents [docs ! i]) is)"
proof -
  have "semantic_chunk_documents (A @ B) =
          semantic_chunk_documents A @ semantic_chunk_documents B"
    by (simp add: semantic_chunk_documents_concat [of "A @ B"]
        semantic_chunk_documents_concat [of A, symmetric]
        semantic_chunk_documents_concat [of B, symmetric])
  moreover have "semantic_chunk_documents (map ((!) docs) is) =
       concat (map (\<lambda>i. semantic_chunk_documents [docs ! i]) is)"
    by (simp add: semantic_chunk_documents_concat [of "map ((!) docs) is"] comp_def)
  ultimately show ?thesis
    using semantic_chunk_documents_concat [of docs] by simp
qed


section \<open>Trimming and sentence splitting\<close>


lemma length_strip_le: "length (strip s) \<le> length s"
proof -
  have "length (strip s) \<le> length (rev (dropWhile is_space (rev s)))"
    unfolding strip_def by (rule length_dropWhile_le)
  also have "\<dots> \<le> length s"
    using length_dropWhile_le [of is_space "rev s"] by simp
  finally show ?thesis .
qed

lemma set_strip_subset: "set (strip s) \<subseteq> set s"
proof -
  have "set (strip s) \<subseteq> set (rev (dropWhile is_space (rev s)))"
    unfolding strip_def by (rule set_dropWhileD [THEN subsetI]) 
  also have "\<dots> \<subseteq> set s"
    using set_dropWhileD [of _ is_space "rev s"] by auto
  finally show ?thesis .
qed

lemma strip_fixed:
  assumes "s = [] \<or> (\<not> is_space (hd s) \<and> \<not> is_space (last s))"
  shows "strip s = s"
proof (cases "s = []")
  case True
  then show ?thesis by (simp add: strip_def)
next
  case False
  with assms have h: "\<not> is_space (hd s)" and l: "\<not> is_space (last s)" by auto
  from False l have "dropWhile is_space (rev s) = rev s"
    by (simp add: dropWhile_eq_self_iff hd_rev)
  moreover from False h have "dropWhile is_space s = s"
    by (simp add: dropWhile_eq_self_iff)
  ultimately show ?thesis by (simp add: strip_def)
qed

lemma strip_ends:
  "strip s = [] \<or> (\<not> is_space (hd (strip s)) \<and> \<not> is_space (last (strip s)))"
proof (cases "strip s = []")
  case True
  then show ?thesis by simp
next
  case False
  define t where "t = rev (dropWhile is_space (rev s))"
  have st: "strip s = dropWhile is_space t" by (simp add: strip_def t_def)
  with False have tne: "t \<noteq> []" by auto
  then have "dropWhile is_space (rev s) \<noteq> []" by (auto simp: t_def)
  then have "\<not> is_space (hd (dropWhile is_space (rev s)))" by (rule hd_dropWhile)
  then have lt: "\<not> is_space (last t)" using tne by (simp add: t_def last_rev)
  have "t = takeWhile is_space t @ strip s" by (simp add: st)
  then have "last t = last (strip s)" using False by (metis last_appendR)
  with lt have "\<not> is_space (last (strip s))" by simp
  moreover have "\<not> is_space (hd (strip s))" using False unfolding st by (rule hd_dropWhile)
  ultimately show ?thesis by simp
qed

lemma strip_idem: "strip (strip s) = strip s"
  using strip_ends [of s] by (rule strip_fixed)

lemma re_split_nonempty: "re_split cur s \<noteq> []"
  by (induction cur s rule: re_split.induct) auto

lemma re_split_no_terminator:
  "\<forall>c\<in>set s. \<not> is_terminator c \<Longrightarrow> re_split cur s = [cur @ s]"
  by (induction s arbitrary: cur) auto

lemma re_split_after_last:
  assumes "is_terminator t" and "\<forall>c\<in>set rest. \<not> is_terminator c"
  shows "last (re_split cur (pre @ t # rest)) = rest
         \<and> length (re_split cur (pre @ t # rest)) > 1"
  using assms
proof (induction "length pre" arbitrary: pre cur rule: less_induct)
  case less
  have dw: "dropWhile is_terminator rest = rest"
    using less.prems(2) by (cases rest) auto
  show ?case
  proof (cases pre)
    case Nil
    then show ?thesis
      using less.prems dw by (simp add: re_split_no_terminator)
  next
    case (Cons p pre')
    show ?thesis
    proof (cases "is_terminator p")
      case False
      then show ?thesis
        using Cons less.hyps [of pre' "cur @ [p]"] less.prems by simp
    next
      case True
      show ?thesis
      proof (cases "\<forall>x\<in>set pre'. is_terminator x")
        case all: True
        then have "dropWhile is_terminator (pre' @ t # rest) = rest"
          using less.prems(1) dw by (simp add: dropWhile_append2)
        then show ?thesis
          using Cons True less.prems by (simp add: re_split_no_terminator)
      next
        case False
        then have d: "dropWhile is_terminator (pre' @ t # rest)
                    = dropWhile is_terminator pre' @ t # rest"
          by (auto simp: dropWhile_append1)
        have "length (dropWhile is_terminator pre') < length pre"
          using Cons length_dropWhile_le [of is_terminator pre'] by simp
        from less.hyps [OF this less.prems, of "[]"] show ?thesis
          using Cons True d re_split_nonempty by simp
      qed
    qed
  qed
qed

lemma overlap_seed_no_terminator:
  "\<forall>c\<in>set s. \<not> is_terminator c \<Longrightarrow> overlap_seed s = []"
  by (simp add: overlap_seed_def re_split_no_terminator)

lemma overlap_seed_after_last:
  "is_terminator t \<Longrightarrow> \<forall>c\<in>set rest. \<not> is_terminator c \<Longrightarrow>
     overlap_seed (pre @ t # rest) = strip rest"
  using re_split_after_last [of t rest "[]" pre] by (simp add: overlap_seed_def Let_def)


section \<open>Invariants of the paragraph loop\<close>

lemma fst_chunk_step: "fst (chunk_step md (cur, out) p) = fst (chunk_step md (cur, []) p)"
  using chunk_step_acc [of md cur out "[]" p] by simp

lemma snd_chunk_step_cases:
  "snd (chunk_step md (cur, out) p) = out
   \<or> snd (chunk_step md (cur, out) p) = out @ [\<lparr>page_content = strip cur, metadata = md\<rparr>]"
  by (simp add: chunk_step_def Let_def)

lemma foldl_chunk_step_invariant:
  assumes step: "\<And>cur p. I cur \<Longrightarrow> p \<in> set ps \<Longrightarrow> I (fst (chunk_step md (cur, []) p))"
    and emit: "\<And>cur. I cur \<Longrightarrow> Q \<lparr>page_content = strip cur, metadata = md\<rparr>"
    and "I cur" and "\<forall>c\<in>set out. Q c"
  shows "I (fst (foldl (chunk_step md) (cur, out) ps))
         \<and> (\<forall>c\<in>set (snd (foldl (chunk_step md) (cur, out) ps)). Q c)"
  using assms
proof (induction ps arbitrary: cur out)
  case Nil
  then show ?case by simp
next
  case (Cons p ps)
  define cur' where "cur' = fst (chunk_step md (cur, out) p)"
  define out' where "out' = snd (chunk_step md (cur, out) p)"
  have st: "chunk_step md (cur, out) p = (cur', out')"
    by (simp add: cur'_def out'_def)
  have "p \<in> set (p # ps)" by simp
  with Cons.prems(1) Cons.prems(3) have "I (fst (chunk_step md (cur, []) p))" by blast
  then have c: "I cur'"
    unfolding cur'_def by (subst fst_chunk_step)
  have q: "Q \<lparr>page_content = strip cur, metadata = md\<rparr>"
    using Cons.prems(2) Cons.prems(3) by blast
  have o: "\<forall>c\<in>set out'. Q c"
    using snd_chunk_step_cases [of md cur out p] q Cons.prems(4)
    unfolding out'_def by (elim disjE) auto
  have step': "\<And>cur p. I cur \<Longrightarrow> p \<in> set ps \<Longrightarrow> I (fst (chunk_step md (cur, []) p))"
    using Cons.prems(1) by (meson list.set_intros(2))
  have eq: "foldl (chunk_step md) (cur, out) (p # ps) = foldl (chunk_step md) (cur', out') ps"
    by (simp only: foldl_Cons st)
  show ?case
    unfolding eq by (rule Cons.IH [OF step' Cons.prems(2) c o])
qed

lemma chunk_page_invariant:
  assumes step: "\<And>cur p. I cur \<Longrightarrow> p \<in> set (split_blank [] (page_content doc)) \<Longrightarrow>
                   I (fst (chunk_step (metadata doc) (cur, []) p))"
    and emit: "\<And>cur. I cur \<Longrightarrow> Q \<lparr>page_content = strip cur, metadata = metadata doc\<rparr>"
    and "I []"
  shows "\<forall>c\<in>set (chunk_page [] doc). Q c"
proof -
  let ?st = "foldl (chunk_step (metadata doc)) ([], []) (split_blank [] (page_content doc))"
  have inv: "I (fst ?st) \<and> (\<forall>c\<in>set (snd ?st). Q c)"
    by (rule foldl_chunk_step_invariant [where I = I and Q = Q, OF step emit assms(3)]) simp_all
  then have "Q \<lparr>page_content = strip (fst ?st), metadata = metadata doc\<rparr>"
    using emit by simp
  with inv show ?thesis by (simp add: chunk_page_def Let_def)
qed

lemma set_semantic_chunk_documents:
  "c \<in> set (semantic_chunk_documents docs) \<Longrightarrow>
     100 < length (page_content c) \<and> (\<exists>d\<in>set docs. c \<in> set (chunk_page [] d))"
  using foldl_chunk_page_acc [of "[]" docs] by (auto simp: semantic_chunk_documents_def)

lemma chunk_page_stripped:
  "\<forall>c\<in>set (chunk_page [] doc). strip (page_content c) = page_content c"
  by (rule chunk_page_invariant [where I = "\<lambda>_. True"]) (simp_all add: strip_idem)


section \<open>Pages of plain paragraphs\<close>

lemma split_blank_no_newline:
  "CHR 0x0A \<notin> set xs \<Longrightarrow> split_blank cur xs = [cur @ xs]"
proof (induction xs arbitrary: cur)
  case Nil
  show ?case by simp
next
  case (Cons x xs)
  then show ?case by (cases xs) auto
qed

lemma split_blank_at_break:
  "CHR 0x0A \<notin> set xs \<Longrightarrow>
     split_blank cur (xs @ CHR 0x0A # CHR 0x0A # ys) = (cur @ xs) # split_blank [] ys"
proof (induction xs arbitrary: cur)
  case Nil
  show ?case by simp
next
  case (Cons x xs)
  then show ?case by (cases xs) auto
qed

lemma strip_replicate_append:
  assumes "\<not> is_space a" and "\<not> is_space b" and "0 < n" and "0 < m"
  shows "strip (replicate n a @ mid @ replicate m b) = replicate n a @ mid @ replicate m b"
proof (rule strip_fixed)
  have "hd (replicate n a @ mid @ replicate m b) = a"
    using assms(3) by (cases n) auto
  moreover have "last (replicate n a @ mid @ replicate m b) = b"
    using assms(4) by (cases m) auto
  ultimately show "replicate n a @ mid @ replicate m b = [] \<or>
    \<not> is_space (hd (replicate n a @ mid @ replicate m b)) \<and>
    \<not> is_space (last (replicate n a @ mid @ replicate m b))"
    using assms(1,2) by simp
qed

lemma strip_replicate:
  "\<not> is_space a \<Longrightarrow> strip (replicate n a) = replicate n a"
  by (rule strip_fixed) (cases n, auto)

lemma two_paragraph_page:
  assumes a: "\<not> is_space a" "a \<noteq> CHR 0x0A" and b: "\<not> is_space b" "b \<noteq> CHR 0x0A"
    and n: "0 < n" and m: "0 < m" and le: "n + m \<le> 2000" and gt: "100 < n + m + 1"
  shows "semantic_chunk_documents
           [\<lparr>page_content = replicate n a @ [CHR 0x0A, CHR 0x0A] @ replicate m b, metadata = md\<rparr>]
         = [\<lparr>page_content = replicate n a @ '' '' @ replicate m b, metadata = md\<rparr>]"
    and "split_blank [] (replicate n a @ [CHR 0x0A, CHR 0x0A] @ replicate m b)
         = [replicate n a, replicate m b]"
proof -
  show sp: "split_blank [] (replicate n a @ [CHR 0x0A, CHR 0x0A] @ replicate m b)
     = [replicate n a, replicate m b]"
    using split_blank_at_break [of "replicate n a" "[]" "replicate m b"]
      split_blank_no_newline [of "replicate m b" "[]"] a(2) b(2)
    by simp
  have s1: "chunk_step md ([], []) (replicate n a) = (replicate n a, [])"
    using n by (simp add: chunk_step_def strip_replicate [OF a(1)])
  have s2: "chunk_step md (replicate n a, []) (replicate m b)
              = (replicate n a @ '' '' @ replicate m b, [])"
    using n m le by (simp add: chunk_step_def strip_replicate [OF b(1)])
  have s3: "strip (replicate n a @ '' '' @ replicate m b)
              = replicate n a @ '' '' @ replicate m b"
    by (rule strip_replicate_append [OF a(1) b(1) n m])
  have ne: "replicate n a @ '' '' @ replicate m b \<noteq> []" by simp
  have "chunk_page []
       \<lparr>page_content = replicate n a @ [CHR 0x0A, CHR 0x0A] @ replicate m b, metadata = md\<rparr>
     = [\<lparr>page_content = replicate n a @ '' '' @ replicate m b, metadata = md\<rparr>]"
    unfolding chunk_page_def
    by (simp only: document.simps sp foldl_Cons foldl_Nil s1 s2 Let_def fst_conv snd_conv s3
        ne if_True not_False_eq_True append_Nil)
  then show "semantic_chunk_documents
           [\<lparr>page_content = replicate n a @ [CHR 0x0A, CHR 0x0A] @ replicate m b, metadata = md\<rparr>]
         = [\<lparr>page_content = replicate n a @ '' '' @ replicate m b, metadata = md\<rparr>]"
    using gt by (simp add: semantic_chunk_documents_def)
qed


section \<open>The overlap seed\<close>

text \<open>
  C4. When a paragraph arrives that is not blank, the buffer is not empty and the two
  lengths add up to more than 2000, the buffer is emitted trimmed and the next buffer is
  the overlap seed, a space and the paragraph, or the paragraph alone when the seed is
  empty. The seed is the trimmed text after the last terminator of the emitted buffer; it
  is empty when the buffer has no terminator and when the buffer ends with one.
\<close>

theorem chunk_step_overlap:
  assumes "strip para \<noteq> []" and "cur \<noteq> []" and "length cur + length (strip para) > 2000"
  shows "chunk_step md (cur, out) para =
           (if overlap_seed cur \<noteq> [] then overlap_seed cur @ '' '' @ strip para
            else strip para,
            out @ [\<lparr>page_content = strip cur, metadata = md\<rparr>])
         \<and> (\<forall>pre t rest. cur = pre @ t # rest \<and> is_terminator t
               \<and> (\<forall>c\<in>set rest. \<not> is_terminator c) \<longrightarrow> overlap_seed cur = strip rest)
         \<and> ((\<forall>c\<in>set cur. \<not> is_terminator c) \<longrightarrow> overlap_seed cur = [])
         \<and> (is_terminator (last cur) \<longrightarrow> overlap_seed cur = [])"
proof -
  have "chunk_step md (cur, out) para =
           (if overlap_seed cur \<noteq> [] then overlap_seed cur @ '' '' @ strip para
            else strip para,
            out @ [\<lparr>page_content = strip cur, metadata = md\<rparr>])"
    using assms by (simp add: chunk_step_def Let_def)
  moreover have "\<forall>pre t rest. cur = pre @ t # rest \<and> is_terminator t
               \<and> (\<forall>c\<in>set rest. \<not> is_terminator c) \<longrightarrow> overlap_seed cur = strip rest"
    using overlap_seed_after_last by blast
  moreover have "(\<forall>c\<in>set cur. \<not> is_terminator c) \<longrightarrow> overlap_seed cur = []"
    using overlap_seed_no_terminator by blast
  moreover have "is_terminator (last cur) \<longrightarrow> overlap_seed cur = []"
  proof
    assume t: "is_terminator (last cur)"
    have "cur = butlast cur @ last cur # []" using assms(2) by simp
    then have "overlap_seed cur = strip []"
      using overlap_seed_after_last [of "last cur" "[]" "butlast cur"] t by simp
    then show "overlap_seed cur = []" by (simp add: strip_def)
  qed
  ultimately show ?thesis by blast
qed

theorem chunk_step_overlap_witness:
  "strip ''far'' \<noteq> [] \<and> replicate 1996 CHR ''a'' @ ''. so'' \<noteq> []
   \<and> length (replicate 1996 CHR ''a'' @ ''. so'') + length (strip ''far'') > 2000
   \<and> chunk_step () (replicate 1996 CHR ''a'' @ ''. so'', []) ''far'' =
       (''so far'', [\<lparr>page_content = replicate 1996 CHR ''a'' @ ''. so'', metadata = ()\<rparr>])"
proof -
  let ?cur = "replicate 1996 CHR ''a'' @ ''. so''"
  have far: "strip ''far'' = ''far''" by (simp add: strip_def is_space_def)
  have so: "strip '' so'' = ''so''" by (simp add: strip_def is_space_def)
  have h1: "strip ''far'' \<noteq> []" by (simp add: far)
  have h2: "?cur \<noteq> []" by simp
  have h3: "length ?cur + length (strip ''far'') > 2000" by (simp add: far)
  have dec: "?cur = replicate 1996 CHR ''a'' @ CHR ''.'' # '' so''" by simp
  have t: "is_terminator CHR ''.''" by (simp add: is_terminator_def)
  have nt: "\<forall>c\<in>set '' so''. \<not> is_terminator c" by (simp add: is_terminator_def)
  have cur: "strip ?cur = ?cur"
    using strip_replicate_append [of "CHR ''a''" "CHR ''o''" 1996 1 "''. s''"]
    by (simp add: is_space_def)
  note inst = chunk_step_overlap [OF h1 h2 h3, of "()" "[]"]
  from inst have "overlap_seed ?cur = strip '' so''" using dec t nt by blast
  then have ov: "overlap_seed ?cur = ''so''" by (simp only: so)
  from inst have "chunk_step () (?cur, []) ''far'' =
           (if overlap_seed ?cur \<noteq> [] then overlap_seed ?cur @ '' '' @ strip ''far''
            else strip ''far'',
            [] @ [\<lparr>page_content = strip ?cur, metadata = ()\<rparr>])" by blast
  then have "chunk_step () (?cur, []) ''far'' =
       (''so far'', [\<lparr>page_content = ?cur, metadata = ()\<rparr>])"
    by (simp only: ov far cur) simp
  with h1 h2 h3 show ?thesis by blast
qed


section \<open>Chunk sizes\<close>

lemma fst_chunk_step_next_buffer: "fst (chunk_step md (cur, out) p) = next_buffer cur p"
  by (simp add: next_buffer_def chunk_step_def Let_def)

lemma next_buffer_within:
  assumes "length cur \<le> 2000" and "length (strip p) \<le> 2000"
    and "seed_free cur (p # ps)" and "exact_fill_free cur (p # ps)"
  shows "length (next_buffer cur p) \<le> 2000"
proof -
  have seed: "strip p \<noteq> [] \<and> length cur + length (strip p) > 2000 \<and> cur \<noteq> []
                \<longrightarrow> overlap_seed cur = []"
    using assms(3) by simp
  have fill: "\<not> (strip p \<noteq> [] \<and> cur \<noteq> [] \<and> length cur + length (strip p) = 2000)"
    using assms(4) by simp
  show ?thesis
    using assms(1,2) seed fill by (auto simp: next_buffer_def chunk_step_def Let_def)
qed

lemma foldl_chunk_step_within:
  assumes "length cur \<le> 2000" and "\<forall>p\<in>set ps. length (strip p) \<le> 2000"
    and "seed_free cur ps" and "exact_fill_free cur ps"
    and "\<forall>c\<in>set out. length (page_content c) \<le> 2000"
  shows "length (fst (foldl (chunk_step md) (cur, out) ps)) \<le> 2000
         \<and> (\<forall>c\<in>set (snd (foldl (chunk_step md) (cur, out) ps)). length (page_content c) \<le> 2000)"
  using assms
proof (induction ps arbitrary: cur out)
  case Nil
  then show ?case by simp
next
  case (Cons p ps)
  define out' where "out' = snd (chunk_step md (cur, out) p)"
  have st: "chunk_step md (cur, out) p = (next_buffer cur p, out')"
    using fst_chunk_step_next_buffer [of md cur out p]
    by (simp add: out'_def prod_eq_iff)
  have p: "length (strip p) \<le> 2000" using Cons.prems(2) by simp
  have c: "length (next_buffer cur p) \<le> 2000"
    by (rule next_buffer_within [OF Cons.prems(1) p Cons.prems(3) Cons.prems(4)])
  have "length (strip cur) \<le> 2000"
    using length_strip_le [of cur] Cons.prems(1) by simp
  then have o: "\<forall>c\<in>set out'. length (page_content c) \<le> 2000"
    using snd_chunk_step_cases [of md cur out p] Cons.prems(5)
    unfolding out'_def by (elim disjE) auto
  have ps: "\<forall>p\<in>set ps. length (strip p) \<le> 2000" using Cons.prems(2) by simp
  have sf: "seed_free (next_buffer cur p) ps" using Cons.prems(3) by simp
  have ef: "exact_fill_free (next_buffer cur p) ps" using Cons.prems(4) by simp
  have eq: "foldl (chunk_step md) (cur, out) (p # ps)
            = foldl (chunk_step md) (next_buffer cur p, out') ps"
    by (simp only: foldl_Cons st)
  show ?case
    unfolding eq by (rule Cons.IH [OF c ps sf ef o])
qed

lemma chunk_page_within:
  assumes "\<forall>p\<in>set (split_blank [] (page_content doc)). length (strip p) \<le> 2000"
    and "no_seed_carried doc" and "no_exact_fill doc"
  shows "\<forall>c\<in>set (chunk_page [] doc). length (page_content c) \<le> 2000"
proof -
  let ?st = "foldl (chunk_step (metadata doc)) ([], []) (split_blank [] (page_content doc))"
  have inv: "length (fst ?st) \<le> 2000 \<and> (\<forall>c\<in>set (snd ?st). length (page_content c) \<le> 2000)"
    using assms
    by (intro foldl_chunk_step_within) (simp_all add: no_seed_carried_def no_exact_fill_def)
  then have "length (strip (fst ?st)) \<le> 2000"
    using length_strip_le [of "fst ?st"] by simp
  with inv show ?thesis by (simp add: chunk_page_def Let_def)
qed

text \<open>
  A page whose paragraphs all end with a sentence terminator carries no seed: every
  buffer ends with the terminator of its last paragraph.
\<close>

lemma prose_seed_free:
  assumes "\<forall>p\<in>set ps. strip p \<noteq> [] \<longrightarrow> is_terminator (last (strip p))"
    and "cur = [] \<or> is_terminator (last cur)"
  shows "seed_free cur ps"
  using assms
proof (induction ps arbitrary: cur)
  case Nil
  show ?case by simp
next
  case (Cons p ps)
  have seed: "cur \<noteq> [] \<longrightarrow> overlap_seed cur = []"
  proof
    assume ne: "cur \<noteq> []"
    with Cons.prems(2) have t: "is_terminator (last cur)" by simp
    have "cur = butlast cur @ last cur # []" using ne by simp
    then have "overlap_seed cur = strip []"
      using overlap_seed_after_last [of "last cur" "[]" "butlast cur"] t by simp
    then show "overlap_seed cur = []" by (simp add: strip_def)
  qed
  have nb: "next_buffer cur p = [] \<or> is_terminator (last (next_buffer cur p))"
    using Cons.prems seed by (auto simp: next_buffer_def chunk_step_def Let_def)
  have "\<forall>p\<in>set ps. strip p \<noteq> [] \<longrightarrow> is_terminator (last (strip p))"
    using Cons.prems(1) by simp
  from Cons.IH [OF this nb] seed show ?case by simp
qed

lemma emitting_page:
  assumes p1: "strip p1 = p1" "p1 \<noteq> []" "CHR 0x0A \<notin> set p1"
    and p2: "strip p2 = p2" "p2 \<noteq> []" "CHR 0x0A \<notin> set p2"
    and over: "length p1 + length p2 > 2000"
    and seed: "overlap_seed p1 = s"
    and nb: "nb = (if s \<noteq> [] then s @ '' '' @ p2 else p2)" "strip nb = nb"
    and long: "100 < length p1" "100 < length nb"
  shows "split_blank [] (p1 @ [CHR 0x0A, CHR 0x0A] @ p2) = [p1, p2]"
    and "next_buffer [] p1 = p1" and "next_buffer p1 p2 = nb"
    and "semantic_chunk_documents
           [\<lparr>page_content = p1 @ [CHR 0x0A, CHR 0x0A] @ p2, metadata = md\<rparr>]
         = [\<lparr>page_content = p1, metadata = md\<rparr>, \<lparr>page_content = nb, metadata = md\<rparr>]"
proof -
  show sp: "split_blank [] (p1 @ [CHR 0x0A, CHR 0x0A] @ p2) = [p1, p2]"
    using split_blank_at_break [of p1 "[]" p2] split_blank_no_newline [of p2 "[]"] p1(3) p2(3)
    by simp
  have s1: "chunk_step m ([], []) p1 = (p1, [])" for m :: 'b
    using p1(1,2) by (simp add: chunk_step_def)
  have s2: "chunk_step m (p1, out) p2 = (nb, out @ [\<lparr>page_content = p1, metadata = m\<rparr>])"
    for m :: 'b and out
    using p1(1,2) p2(1,2) over seed nb(1) by (simp add: chunk_step_def Let_def)
  show "next_buffer [] p1 = p1" by (simp add: next_buffer_def s1)
  show "next_buffer p1 p2 = nb" by (simp add: next_buffer_def s2)
  have ne: "nb \<noteq> []" using long(2) by auto
  have "chunk_page [] \<lparr>page_content = p1 @ [CHR 0x0A, CHR 0x0A] @ p2, metadata = md\<rparr>
     = [\<lparr>page_content = p1, metadata = md\<rparr>, \<lparr>page_content = nb, metadata = md\<rparr>]"
    unfolding chunk_page_def document.simps Let_def sp
    by (simp add: s1 s2 nb(2) ne)
  then show "semantic_chunk_documents
           [\<lparr>page_content = p1 @ [CHR 0x0A, CHR 0x0A] @ p2, metadata = md\<rparr>]
         = [\<lparr>page_content = p1, metadata = md\<rparr>, \<lparr>page_content = nb, metadata = md\<rparr>]"
    using long by (simp add: semantic_chunk_documents_def)
qed

text \<open>
  Two paragraphs of 1500 and 500 characters are joined into one chunk of 2001
  characters: the test adds the two lengths, and the separating space comes on top.
\<close>

lemma joined_page_example:
  "split_blank [] (replicate 1500 CHR ''a'' @ [CHR 0x0A, CHR 0x0A] @ replicate 500 CHR ''b'')
     = [replicate 1500 CHR ''a'', replicate 500 CHR ''b'']
   \<and> semantic_chunk_documents
       [\<lparr>page_content = replicate 1500 CHR ''a'' @ [CHR 0x0A, CHR 0x0A] @ replicate 500 CHR ''b'',
         metadata = ()\<rparr>]
     = [\<lparr>page_content = replicate 1500 CHR ''a'' @ '' '' @ replicate 500 CHR ''b'',
         metadata = ()\<rparr>]
   \<and> length (replicate 1500 CHR ''a'' @ '' '' @ replicate 500 CHR ''b'') = 2001"
  using two_paragraph_page(1) [where a = "CHR ''a''" and b = "CHR ''b''" and n = 1500 and m = 500 and md = "()"]
      two_paragraph_page(2) [where a = "CHR ''a''" and b = "CHR ''b''" and n = 1500 and m = 500]
  by (simp add: is_space_def)

text \<open>
  C1, as the code has it. Every chunk returned is longer than 100 characters after
  trimming. When no paragraph is longer than 2000 characters, no buffer emitted inside a
  page leaves a non-empty overlap seed, and no paragraph is joined to a buffer whose length
  and its own add up to exactly 2000, every chunk has at most 2000 characters.
\<close>

theorem chunk_size_bounds:
  "(\<forall>c\<in>set (semantic_chunk_documents docs). 100 < length (strip (page_content c)))
   \<and> ((\<forall>d\<in>set docs.
          (\<forall>p\<in>set (split_blank [] (page_content d)). length (strip p) \<le> 2000)
          \<and> no_seed_carried d \<and> no_exact_fill d)
      \<longrightarrow> (\<forall>c\<in>set (semantic_chunk_documents docs). length (page_content c) \<le> 2000))"
proof (intro conjI impI ballI)
  fix c assume "c \<in> set (semantic_chunk_documents docs)"
  then show "100 < length (strip (page_content c))"
    using set_semantic_chunk_documents [of c docs] chunk_page_stripped by fastforce
next
  fix c
  assume h: "\<forall>d\<in>set docs.
          (\<forall>p\<in>set (split_blank [] (page_content d)). length (strip p) \<le> 2000)
          \<and> no_seed_carried d \<and> no_exact_fill d"
    and "c \<in> set (semantic_chunk_documents docs)"
  then obtain d where "d \<in> set docs" "c \<in> set (chunk_page [] d)"
    using set_semantic_chunk_documents [of c docs] by blast
  with h show "length (page_content c) \<le> 2000"
    using chunk_page_within [of d] by blast
qed

theorem chunk_size_bounds_witness:
  "split_blank [] (replicate 1500 CHR ''x'' @ [CHR 0x0A, CHR 0x0A] @ replicate 600 CHR ''y'')
     = [replicate 1500 CHR ''x'', replicate 600 CHR ''y'']
   \<and> no_seed_carried
       \<lparr>page_content = replicate 1500 CHR ''x'' @ [CHR 0x0A, CHR 0x0A] @ replicate 600 CHR ''y'',
        metadata = ()\<rparr>
   \<and> no_exact_fill
       \<lparr>page_content = replicate 1500 CHR ''x'' @ [CHR 0x0A, CHR 0x0A] @ replicate 600 CHR ''y'',
        metadata = ()\<rparr>
   \<and> semantic_chunk_documents
       [\<lparr>page_content = replicate 1500 CHR ''x'' @ [CHR 0x0A, CHR 0x0A] @ replicate 600 CHR ''y'',
         metadata = ()\<rparr>]
     = [\<lparr>page_content = replicate 1500 CHR ''x'', metadata = ()\<rparr>,
        \<lparr>page_content = replicate 600 CHR ''y'', metadata = ()\<rparr>]
   \<and> 100 < length (strip (replicate 1500 CHR ''x''))
   \<and> length (replicate 1500 CHR ''x'') \<le> 2000
   \<and> 100 < length (strip (replicate 600 CHR ''y''))
   \<and> length (replicate 600 CHR ''y'') \<le> 2000"
proof -
  let ?p1 = "replicate 1500 CHR ''x''"
  let ?p2 = "replicate 600 CHR ''y''"
  let ?doc = "\<lparr>page_content = ?p1 @ [CHR 0x0A, CHR 0x0A] @ ?p2, metadata = ()\<rparr>"
  have x: "\<not> is_space CHR ''x''" and y: "\<not> is_space CHR ''y''" by (simp_all add: is_space_def)
  have p1: "strip ?p1 = ?p1" by (rule strip_replicate [OF x])
  have p2: "strip ?p2 = ?p2" by (rule strip_replicate [OF y])
  have seed: "overlap_seed ?p1 = []"
    by (rule overlap_seed_no_terminator) (simp add: is_terminator_def)
  have nb: "?p2 = (if ([]::string) \<noteq> [] then [] @ '' '' @ ?p2 else ?p2)" by simp
  note page = emitting_page [where ?p1.0 = ?p1 and ?p2.0 = ?p2 and nb = ?p2,
      OF p1 _ _ p2 _ _ _ seed nb p2]
  have sp: "split_blank [] (page_content ?doc) = [?p1, ?p2]" using page(1) by simp
  have n1: "next_buffer [] ?p1 = ?p1" using page(2) by simp
  have n2: "next_buffer ?p1 ?p2 = ?p2" using page(3) by simp
  have eq: "semantic_chunk_documents [?doc]
            = [\<lparr>page_content = ?p1, metadata = ()\<rparr>, \<lparr>page_content = ?p2, metadata = ()\<rparr>]"
    using page(4) by simp
  have sf: "no_seed_carried ?doc"
    unfolding no_seed_carried_def sp by (simp add: n1 n2 seed)
  have ef: "no_exact_fill ?doc"
    unfolding no_exact_fill_def sp by (simp add: n1 n2 p1 p2)
  have hyp: "\<forall>d\<in>set [?doc].
          (\<forall>p\<in>set (split_blank [] (page_content d)). length (strip p) \<le> 2000)
          \<and> no_seed_carried d \<and> no_exact_fill d"
    using sp sf ef p1 p2 by simp
  from chunk_size_bounds [of "[?doc]"] hyp
  have "(\<forall>c\<in>set (semantic_chunk_documents [?doc]). 100 < length (strip (page_content c)))
     \<and> (\<forall>c\<in>set (semantic_chunk_documents [?doc]). length (page_content c) \<le> 2000)"
    by blast
  then have "100 < length (strip ?p1) \<and> length ?p1 \<le> 2000
     \<and> 100 < length (strip ?p2) \<and> length ?p2 \<le> 2000"
    unfolding eq by simp
  with sp sf ef eq show ?thesis by simp
qed

text \<open>
  A page of two paragraphs of 2000 characters each, the first beginning with a full
  stop: the first buffer is emitted, all the rest of it is the overlap seed, and the second
  chunk has 4000 characters.
\<close>

theorem chunk_size_counterexample:
  "split_blank []
      ((CHR ''.'' # replicate 1999 CHR ''a'') @ [CHR 0x0A, CHR 0x0A] @ replicate 2000 CHR ''b'')
     = [CHR ''.'' # replicate 1999 CHR ''a'', replicate 2000 CHR ''b'']
   \<and> length (CHR ''.'' # replicate 1999 CHR ''a'') = 2000
   \<and> length (replicate 2000 CHR ''b'') = 2000
   \<and> semantic_chunk_documents
       [\<lparr>page_content =
           (CHR ''.'' # replicate 1999 CHR ''a'') @ [CHR 0x0A, CHR 0x0A] @ replicate 2000 CHR ''b'',
         metadata = ()\<rparr>]
     = [\<lparr>page_content = CHR ''.'' # replicate 1999 CHR ''a'', metadata = ()\<rparr>,
        \<lparr>page_content = replicate 1999 CHR ''a'' @ '' '' @ replicate 2000 CHR ''b'',
         metadata = ()\<rparr>]
   \<and> length (replicate 1999 CHR ''a'' @ '' '' @ replicate 2000 CHR ''b'') = 4000"
proof -
  let ?p1 = "CHR ''.'' # replicate 1999 CHR ''a''"
  let ?p2 = "replicate 2000 CHR ''b''"
  let ?nb = "replicate 1999 CHR ''a'' @ '' '' @ replicate 2000 CHR ''b''"
  have a: "\<not> is_space CHR ''a''" and b: "\<not> is_space CHR ''b''" and d: "\<not> is_space CHR ''.''"
    by (simp_all add: is_space_def)
  have p1: "strip ?p1 = ?p1" by (rule strip_fixed) (simp add: a d)
  have p2: "strip ?p2 = ?p2" by (rule strip_replicate [OF b])
  have nbs: "strip ?nb = ?nb" by (rule strip_replicate_append [OF a b]) simp_all
  have "overlap_seed ([] @ CHR ''.'' # replicate 1999 CHR ''a'') = strip (replicate 1999 CHR ''a'')"
    by (rule overlap_seed_after_last) (simp_all add: is_terminator_def)
  then have seed: "overlap_seed ?p1 = replicate 1999 CHR ''a''"
    by (simp add: strip_replicate [OF a])
  have nb: "?nb = (if replicate 1999 CHR ''a'' \<noteq> [] then replicate 1999 CHR ''a'' @ '' '' @ ?p2
                   else ?p2)"
    by simp
  note page = emitting_page [where ?p1.0 = ?p1 and ?p2.0 = ?p2 and nb = ?nb,
      OF p1 _ _ p2 _ _ _ seed nb nbs]
  show ?thesis using page(1) page(4) by simp
qed


section \<open>The subscription check of the ingestion\<close>

lemma document_upload_never_granted:
  "check_feature_access us user_id ''document_upload'' \<noteq> Inr True"
proof -
  have "''document_upload'' \<notin> set (TIER_LIMITS_features tier)" for tier
    by (cases tier) simp_all
  then show ?thesis
    by (auto simp: check_feature_access_def split: option.splits sum.splits)
qed

text \<open>
  C10. When the feature check answers no, the ingestion returns the error result at once:
  the state is returned as it was, so no file has been loaded, no batch written and no
  record stored. By \<open>document_upload_never_granted\<close> the check never answers yes.
\<close>

theorem subscription_check_first:
  assumes "check_feature_access (users st) user_id ''document_upload'' = Inr False"
  shows "process_and_store_documents B st file_paths user_id batch_size uuid_hex now =
           (Inr (failure ''Document upload not available for your subscription tier''), st)"
  using assms by (simp add: process_and_store_documents_def)

theorem subscription_check_first_witness:
  "check_feature_access (users example_state) ''bob'' ''document_upload'' = Inr False
   \<and> process_and_store_documents (example_backends False) example_state [''will.pdf''] ''bob'' 64
        ''9f8e7d6c5b4a39281706f5e4d3c2b1a0'' 1700000500 =
       (Inr (failure ''Document upload not available for your subscription tier''), example_state)"
proof -
  have h: "check_feature_access (users example_state) ''bob'' ''document_upload'' = Inr False"
    by (simp add: check_feature_access_def example_state_def SubscriptionTier_of_def)
  from subscription_check_first [OF h] h show ?thesis by blast
qed

lemma batches_Nil: "batches n [] = []"
  by (simp add: batches.simps)

lemma try_block_zero_chunks:
  assumes "load_all B file_paths [] (calls st) = (Inr all_docs, log)"
    and "semantic_chunk_documents all_docs = []"
    and "batch_size \<noteq> 0"
  shows "process_and_store_documents_try B st file_paths user_id batch_size uuid_hex now =
           (PyDict [(''success'', PyBool True),
                    (''namespace'', PyStr (''user_'' @ user_id @ ''_'' @ take 8 uuid_hex)),
                    (''chunks_created'', PyInt 0),
                    (''message'', PyStr ''Documents successfully processed and indexed'')],
            st\<lparr>document_sets := db_store_document_set (document_sets st)
                  \<lparr>ds_id = ''user_'' @ user_id @ ''_'' @ take 8 uuid_hex, ds_user_id = user_id,
                   ds_file_paths = file_paths, ds_chunk_count = 0,
                   ds_created_at = now, ds_status = ''ready''\<rparr>,
               calls := log\<rparr>)"
  using assms
  by (simp add: process_and_store_documents_try_def Let_def batch_list_def batches_Nil)

text \<open>
  C6. The \<^verbatim>\<open>try\<close> block registers a namespace with a chunk count of 0 when no
  chunk is left (\<open>try_block_zero_chunks\<close>), but the service never reaches it: for a
  Platinum user, configured backends and an empty file list the ingestion returns the
  subscription error, since no tier lists the feature \<open>document_upload\<close>.
\<close>

theorem upload_always_rejected:
  "process_and_store_documents (example_backends False) example_state [] ''alice'' 64
        ''9f8e7d6c5b4a39281706f5e4d3c2b1a0'' 1700000500 =
       (Inr (failure ''Document upload not available for your subscription tier''), example_state)"
  by (simp add: process_and_store_documents_def check_feature_access_def example_state_def
      SubscriptionTier_of_def)


section \<open>The ownership check of the query\<close>

lemma item_failure:
  "item (failure msg) ''success'' = Some (PyBool False)"
  "item (failure msg) ''error'' = Some (PyStr msg)"
  "item (failure msg) ''answer'' = None"
  "item (failure msg) ''sources'' = None"
  by (simp_all add: failure_def)

text \<open>
  C2, as the code has it. When the registry has no record for the namespace, or the
  record belongs to another user, the query returns an error result before any call to the
  index or the chain (the state, with its log of calls, is unchanged) and returns no
  sources. With the three backends configured the error is the single message
  \<open>Document set not found or access denied\<close> in both cases; with a backend missing,
  the error names that backend.
\<close>

theorem query_ownership_check:
  assumes "db_get_document_set (document_sets st) namespace = None
           \<or> (\<exists>ds. db_get_document_set (document_sets st) namespace = Some ds
                    \<and> ds_user_id ds \<noteq> user_id)"
  shows "snd (query_documents B st query namespace user_id k) = st
         \<and> item (fst (query_documents B st query namespace user_id k)) ''success''
             = Some (PyBool False)
         \<and> item (fst (query_documents B st query namespace user_id k)) ''sources'' = None
         \<and> (pc B \<and> embeddings B \<and> llm B \<longrightarrow>
              fst (query_documents B st query namespace user_id k)
                = failure ''Document set not found or access denied'')"
  using assms by (auto simp: query_documents_def item_failure)

theorem query_ownership_check_witness:
  "(\<exists>ds. db_get_document_set (document_sets example_state) ''user_bob_0a1b2c3d'' = Some ds
         \<and> ds_user_id ds \<noteq> ''alice'')
   \<and> query_documents (example_backends False) example_state ''What is the rent?''
        ''user_bob_0a1b2c3d'' ''alice'' 5
      = (failure ''Document set not found or access denied'', example_state)"
proof -
  have h: "\<exists>ds. db_get_document_set (document_sets example_state) ''user_bob_0a1b2c3d'' = Some ds
         \<and> ds_user_id ds \<noteq> ''alice''"
    by (simp add: db_get_document_set_def example_state_def)
  have cfg: "pc (example_backends False) \<and> embeddings (example_backends False)
             \<and> llm (example_backends False)"
    by (simp add: example_backends_def)
  from query_ownership_check [of example_state "''user_bob_0a1b2c3d''" "''alice''"
      "example_backends False" "''What is the rent?''" 5] h cfg
  have "snd (query_documents (example_backends False) example_state ''What is the rent?''
        ''user_bob_0a1b2c3d'' ''alice'' 5) = example_state
      \<and> fst (query_documents (example_backends False) example_state ''What is the rent?''
        ''user_bob_0a1b2c3d'' ''alice'' 5) = failure ''Document set not found or access denied''"
    by blast
  then have "query_documents (example_backends False) example_state ''What is the rent?''
        ''user_bob_0a1b2c3d'' ''alice'' 5
      = (failure ''Document set not found or access denied'', example_state)"
    by (simp add: prod_eq_iff)
  with h show ?thesis by blast
qed

text \<open>
  The two cases are not told apart: a namespace of another owner and an unknown
  namespace give the same result, and with no vector index configured an unknown namespace
  gives another error.
\<close>

theorem query_not_found_counterexample:
  "fst (query_documents (example_backends False) example_state ''What is the rent?''
        ''user_bob_0a1b2c3d'' ''alice'' 5)
     = fst (query_documents (example_backends False) example_state ''What is the rent?''
        ''user_alice_ffffffff'' ''alice'' 5)
   \<and> fst (query_documents (example_backends False) example_state ''What is the rent?''
        ''user_alice_ffffffff'' ''alice'' 5)
     = PyDict [(''success'', PyBool False),
               (''error'', PyStr ''Document set not found or access denied'')]
   \<and> fst (query_documents ((example_backends False)\<lparr>pc := False\<rparr>) example_state
        ''What is the rent?'' ''user_alice_ffffffff'' ''alice'' 5)
     = PyDict [(''success'', PyBool False), (''error'', PyStr ''Pinecone not configured'')]"
  by (simp add: query_documents_def example_backends_def example_state_def
      db_get_document_set_def failure_def)


section \<open>The number of chunks requested\<close>

lemma retrieved_k_Nil: "retrieved_k [] = []"
  by (simp add: retrieved_k_def)

lemma snd_case_detail:
  "snd (case x of Some (PyStr detail) \<Rightarrow> (f detail, s) | _ \<Rightarrow> (g, s)) = s"
  by (simp split: option.splits pyval.splits)

lemma snd_case_fields:
  "snd (case (a, b, c) of (Some a', Some b', Some c') \<Rightarrow> (f a' b' c', s) | _ \<Rightarrow> (g, s)) = s"
  by (simp split: option.splits)

lemma snd_route_query_documents:
  "snd (route_query_documents B st namespace query k current_user_id) = st
   \<or> snd (route_query_documents B st namespace query k current_user_id)
       = snd (query_documents B st query namespace current_user_id (min k 10))"
proof (cases "strip query = []")
  case True
  then show ?thesis by (simp add: route_query_documents_def)
next
  case False
  define r where "r = query_documents B st query namespace current_user_id (min k 10)"
  have "snd (route_query_documents B st namespace query k current_user_id) = snd r"
    using False unfolding route_query_documents_def r_def [symmetric] Let_def
    by (simp add: snd_case_detail split: option.splits)
  then show ?thesis by (simp add: r_def)
qed

lemma retrieved_k_query_documents:
  "retrieved_k (calls (snd (query_documents B (st\<lparr>calls := []\<rparr>) query namespace user_id k)))
     = [] \<or>
   retrieved_k (calls (snd (query_documents B (st\<lparr>calls := []\<rparr>) query namespace user_id k)))
     = [k]"
proof -
  have "calls (snd (query_documents B (st\<lparr>calls := []\<rparr>) query namespace user_id k))
          \<in> {[], [FromExistingIndex namespace],
              [FromExistingIndex namespace, Invoke namespace k query]}"
    unfolding query_documents_def
    by (simp split: option.splits sum.splits prod.splits)
  then show ?thesis by (auto simp: retrieved_k_def)
qed

lemma retrieved_k_retrieve_and_answer:
  "retrieved_k (calls (snd (retrieve_and_answer B (st\<lparr>calls := []\<rparr>) query namespace)))
     = [] \<or>
   retrieved_k (calls (snd (retrieve_and_answer B (st\<lparr>calls := []\<rparr>) query namespace)))
     = [5]"
proof -
  have "calls (snd (retrieve_and_answer B (st\<lparr>calls := []\<rparr>) query namespace))
          \<in> {[FromExistingIndex namespace],
              [FromExistingIndex namespace, Invoke namespace 5 query]}"
    unfolding retrieve_and_answer_def
    by (simp split: option.splits sum.splits prod.splits)
  then show ?thesis by (auto simp: retrieved_k_def)
qed

text \<open>
  C8. Whatever \<open>k\<close> is requested, the route \<open>POST /rag/query\<close> hands at most 10
  to the chain (it passes \<open>min k 10\<close> to the service), and \<open>retrieve_and_answer\<close> of
  \<open>Final/main.py\<close> always asks for 5.
\<close>

theorem query_k_at_most_10:
  "list_all (\<lambda>k'. k' \<le> 10)
     (retrieved_k (calls (snd (route_query_documents B
        (st\<lparr>calls := []\<rparr>) namespace query k current_user_id))))
   \<and> list_all (\<lambda>k'. k' \<le> 10)
     (retrieved_k (calls (snd (retrieve_and_answer B (st\<lparr>calls := []\<rparr>) query namespace))))"
proof
  show "list_all (\<lambda>k'. k' \<le> 10)
     (retrieved_k (calls (snd (route_query_documents B
        (st\<lparr>calls := []\<rparr>) namespace query k current_user_id))))"
    using snd_route_query_documents [of B "st\<lparr>calls := []\<rparr>" namespace query k current_user_id]
      retrieved_k_query_documents [of B st query namespace current_user_id "min k 10"]
    by (elim disjE) (simp_all add: retrieved_k_Nil)
  show "list_all (\<lambda>k'. k' \<le> 10)
     (retrieved_k (calls (snd (retrieve_and_answer B (st\<lparr>calls := []\<rparr>) query namespace))))"
    using retrieved_k_retrieve_and_answer [of B st query namespace]
    by (elim disjE) simp_all
qed


section \<open>Failures while answering\<close>

text \<open>
  C5, as the code has it. When the chain raises in \<open>retrieve_and_answer\<close>, the
  result is \<open>{"answer": None, "sources": [], "error": str(e)}\<close>. When opening the index
  or the chain raises in the query of the service, for a caller who owns the namespace, the
  result is \<open>{"success": False, "error": "Error querying documents: " + str(e)}\<close>.
\<close>

theorem answering_failure_returned:
  "(from_existing_index B (pinecone st) namespace = None
      \<and> invoke B (pinecone st) namespace 5 query = Inl e
    \<longrightarrow> fst (retrieve_and_answer B st query namespace)
          = Inr (PyDict [(''answer'', PyNone), (''sources'', PyList []),
                         (''error'', PyStr (str_exn e))]))
   \<and> (pc B \<and> embeddings B \<and> llm B
      \<and> (\<exists>ds. db_get_document_set (document_sets st) namespace = Some ds
               \<and> ds_user_id ds = user_id)
      \<and> (from_existing_index B (pinecone st) namespace = Some e
         \<or> from_existing_index B (pinecone st) namespace = None
            \<and> invoke B (pinecone st) namespace k query = Inl e)
    \<longrightarrow> fst (query_documents B st query namespace user_id k)
          = PyDict [(''success'', PyBool False),
                    (''error'', PyStr (''Error querying documents: '' @ str_exn e))])"
  by (auto simp: retrieve_and_answer_def query_documents_def failure_def)

theorem answering_failure_returned_witness:
  "from_existing_index (example_backends True) (pinecone example_state) ''user_bob_0a1b2c3d''
     = None
   \<and> invoke (example_backends True) (pinecone example_state) ''user_bob_0a1b2c3d'' 5
       ''What is the rent?'' = Inl (Error ''model unavailable'')
   \<and> fst (retrieve_and_answer (example_backends True) example_state ''What is the rent?''
        ''user_bob_0a1b2c3d'')
      = Inr (PyDict [(''answer'', PyNone), (''sources'', PyList []),
                     (''error'', PyStr ''model unavailable'')])
   \<and> fst (query_documents (example_backends True) example_state ''What is the rent?''
        ''user_bob_0a1b2c3d'' ''bob'' 5)
      = PyDict [(''success'', PyBool False),
                (''error'', PyStr ''Error querying documents: model unavailable'')]"
proof -
  have a: "from_existing_index (example_backends True) (pinecone example_state)
             ''user_bob_0a1b2c3d'' = None"
    and b: "invoke (example_backends True) (pinecone example_state) ''user_bob_0a1b2c3d'' 5
       ''What is the rent?'' = Inl (Error ''model unavailable'')"
    and c: "pc (example_backends True) \<and> embeddings (example_backends True)
            \<and> llm (example_backends True)"
    by (simp_all add: example_backends_def)
  have d: "\<exists>ds. db_get_document_set (document_sets example_state) ''user_bob_0a1b2c3d'' = Some ds
               \<and> ds_user_id ds = ''bob''"
    by (simp add: db_get_document_set_def example_state_def)
  from answering_failure_returned [of "example_backends True" example_state
      "''user_bob_0a1b2c3d''" "''What is the rent?''" "Error ''model unavailable''" "''bob''" 5]
    a b c d
  show ?thesis by simp
qed

text \<open>
  The error result of the service has neither \<open>answer\<close> nor \<open>sources\<close>, and an
  exception raised while \<open>retrieve_and_answer\<close> opens the index reaches the caller.
\<close>

theorem answering_failure_counterexample:
  "fst (query_documents (example_backends True) example_state ''What is the rent?''
        ''user_bob_0a1b2c3d'' ''bob'' 5)
      = PyDict [(''success'', PyBool False),
                (''error'', PyStr ''Error querying documents: model unavailable'')]
   \<and> fst (retrieve_and_answer
        ((example_backends True)\<lparr>from_existing_index := (\<lambda>idx ns. Some (Error ''index not found''))\<rparr>)
        example_state ''What is the rent?'' ''user_bob_0a1b2c3d'')
      = Inl (Error ''index not found'')"
  by (simp add: query_documents_def retrieve_and_answer_def example_backends_def
      example_state_def db_get_document_set_def failure_def)


section \<open>What the operations do to the registry\<close>

lemma store_batches_all_written:
  "store_batches B ns bs idx log = (None, idx', log') \<Longrightarrow>
     log' = log @ map (FromDocuments ns) bs"
proof (induction bs arbitrary: idx log)
  case Nil
  then show ?case by simp
next
  case (Cons b bs)
  obtain r idx1 where fd: "from_documents B idx ns b = (r, idx1)"
    by (cases "from_documents B idx ns b")
  show ?case
  proof (cases r)
    case None
    with Cons.prems fd
    have "store_batches B ns bs idx1 (log @ [FromDocuments ns b]) = (None, idx', log')"
      by simp
    from Cons.IH [OF this] show ?thesis by simp
  next
    case (Some e)
    with Cons.prems fd show ?thesis by simp
  qed
qed

lemma try_document_sets:
  "document_sets (snd (process_and_store_documents_try B st file_paths user_id batch_size
                         uuid_hex now)) = document_sets st
   \<or> (\<exists>n. document_sets (snd (process_and_store_documents_try B st file_paths user_id
                                batch_size uuid_hex now))
          = db_store_document_set (document_sets st)
              \<lparr>ds_id = ''user_'' @ user_id @ ''_'' @ take 8 uuid_hex, ds_user_id = user_id,
               ds_file_paths = file_paths, ds_chunk_count = n,
               ds_created_at = now, ds_status = ''ready''\<rparr>)"
proof -
  obtain r log where la: "load_all B file_paths [] (calls st) = (r, log)"
    by (cases "load_all B file_paths [] (calls st)")
  show ?thesis
  proof (cases r)
    case (Inl e)
    with la show ?thesis by (simp add: process_and_store_documents_try_def)
  next
    case (Inr all_docs)
    obtain eo idx log' where sb:
      "store_batches B (''user_'' @ user_id @ ''_'' @ take 8 uuid_hex)
         (batch_list batch_size (semantic_chunk_documents all_docs)) (pinecone st) log
       = (eo, idx, log')"
      by (cases "store_batches B (''user_'' @ user_id @ ''_'' @ take 8 uuid_hex)
         (batch_list batch_size (semantic_chunk_documents all_docs)) (pinecone st) log")
    show ?thesis
    proof (cases "batch_size = 0")
      case True
      with la Inr show ?thesis by (simp add: process_and_store_documents_try_def)
    next
      case False
      show ?thesis
      proof (cases eo)
        case (Some e)
        with la Inr False sb show ?thesis
          by (simp add: process_and_store_documents_try_def Let_def)
      next
        case None
        with la Inr False sb show ?thesis
          by (auto simp: process_and_store_documents_try_def Let_def)
      qed
    qed
  qed
qed

lemma process_document_sets:
  "document_sets (snd (process_and_store_documents B st file_paths user_id batch_size
                         uuid_hex now)) = document_sets st
   \<or> document_sets (snd (process_and_store_documents B st file_paths user_id batch_size
                         uuid_hex now))
     = document_sets (snd (process_and_store_documents_try B st file_paths user_id batch_size
                         uuid_hex now))"
  unfolding process_and_store_documents_def Let_def
  by (simp split: sum.splits)

lemma query_document_sets:
  "document_sets (snd (query_documents B st query namespace user_id k)) = document_sets st"
  unfolding query_documents_def
  by (simp split: option.splits sum.splits prod.splits)

lemma namespace_owner:
  assumes "length h = 8" and "length h' = 8"
    and "''user_'' @ u @ ''_'' @ h = ''user_'' @ u' @ ''_'' @ h'"
  shows "u = u'"
proof -
  from assms(3) have "(u @ ''_'') @ h = (u' @ ''_'') @ h'" by simp
  moreover have "length h = length h'" using assms(1,2) by simp
  ultimately have "u @ ''_'' = u' @ ''_''"
    by (metis append_eq_append_conv)
  then show ?thesis by simp
qed

lemma registry_wf_lookup:
  "registry_wf db \<Longrightarrow> map_of db key = Some d \<Longrightarrow> owner_key key d"
  by (auto simp: registry_wf_def list_all_iff dest: map_of_SomeD)

lemma store_keeps_owner:
  assumes wf: "registry_wf db" and hex: "length uuid_hex = 32"
    and rec: "map_of db ns = Some ds"
    and new: "map_of (db_store_document_set db
                \<lparr>ds_id = ''user_'' @ user_id @ ''_'' @ take 8 uuid_hex, ds_user_id = user_id,
                 ds_file_paths = fps, ds_chunk_count = n,
                 ds_created_at = now, ds_status = status\<rparr>) ns = Some ds'"
  shows "ds_user_id ds' = ds_user_id ds"
proof (cases "ns = ''user_'' @ user_id @ ''_'' @ take 8 uuid_hex")
  case False
  with new rec show ?thesis
    by (simp add: db_store_document_set_def update_conv')
next
  case True
  from new True have ds': "ds_user_id ds' = user_id"
    by (auto simp: db_store_document_set_def update_conv')
  from registry_wf_lookup [OF wf rec]
  have k: "8 \<le> length ns"
    "ns = ''user_'' @ ds_user_id ds @ ''_'' @ drop (length ns - 8) ns"
    unfolding owner_key_def by blast+
  have "length (drop (length ns - 8) ns) = 8" using k(1) by simp
  moreover have "length (take 8 uuid_hex) = 8" using hex by simp
  moreover have "''user_'' @ ds_user_id ds @ ''_'' @ drop (length ns - 8) ns
               = ''user_'' @ user_id @ ''_'' @ take 8 uuid_hex"
    using k(2) True by simp
  ultimately have "ds_user_id ds = user_id" by (rule namespace_owner)
  with ds' show ?thesis by simp
qed

lemma delete_keeps_record:
  "map_of (db_delete_document_set db key) ns = Some ds' \<Longrightarrow> map_of db ns = Some ds'"
  by (auto simp: db_delete_document_set_def delete_conv' split: if_splits)

lemma delete_document_sets:
  "document_sets (snd (delete_document_set st namespace user_id)) = document_sets st
   \<or> document_sets (snd (delete_document_set st namespace user_id))
       = db_delete_document_set (document_sets st) namespace"
  unfolding delete_document_set_def
  by (simp split: option.splits)

lemma registry_wf_example: "registry_wf (document_sets example_state)"
  by (simp add: registry_wf_def owner_key_def example_state_def)

lemma registry_wf_update:
  "registry_wf db \<Longrightarrow> owner_key key d \<Longrightarrow> registry_wf (AList.update key d db)"
  by (induction db) (auto simp: registry_wf_def)

lemma registry_wf_delete: "registry_wf db \<Longrightarrow> registry_wf (AList.delete key db)"
  by (induction db) (auto simp: registry_wf_def)

lemma owner_key_new:
  assumes "length uuid_hex = 32"
  shows "owner_key (''user_'' @ user_id @ ''_'' @ take 8 uuid_hex)
           \<lparr>ds_id = ''user_'' @ user_id @ ''_'' @ take 8 uuid_hex, ds_user_id = user_id,
            ds_file_paths = fps, ds_chunk_count = n, ds_created_at = now, ds_status = status\<rparr>"
proof -
  have l: "length (take 8 uuid_hex) = 8" using assms by simp
  have "drop (length ((''user_'' @ user_id @ ''_'') @ take 8 uuid_hex) - 8)
          ((''user_'' @ user_id @ ''_'') @ take 8 uuid_hex) = take 8 uuid_hex"
    using l by (simp only: length_append drop_append) simp
  then show ?thesis using l by (simp add: owner_key_def)
qed

lemma registry_wf_preserved:
  assumes "registry_wf (document_sets st)" and "length uuid_hex = 32"
  shows "registry_wf (document_sets (snd (process_and_store_documents_try B st file_paths
           user_id batch_size uuid_hex now)))"
    and "registry_wf (document_sets (snd (process_and_store_documents B st file_paths
           user_id batch_size uuid_hex now)))"
    and "registry_wf (document_sets (snd (query_documents B st query namespace caller k)))"
    and "registry_wf (document_sets (snd (delete_document_set st namespace caller)))"
proof -
  show t: "registry_wf (document_sets (snd (process_and_store_documents_try B st file_paths
           user_id batch_size uuid_hex now)))"
    using try_document_sets [of B st file_paths user_id batch_size uuid_hex now]
  proof
    assume "document_sets (snd (process_and_store_documents_try B st file_paths user_id
               batch_size uuid_hex now)) = document_sets st"
    with assms(1) show ?thesis by simp
  next
    assume "\<exists>n. document_sets (snd (process_and_store_documents_try B st file_paths user_id
                                batch_size uuid_hex now))
          = db_store_document_set (document_sets st)
              \<lparr>ds_id = ''user_'' @ user_id @ ''_'' @ take 8 uuid_hex, ds_user_id = user_id,
               ds_file_paths = file_paths, ds_chunk_count = n,
               ds_created_at = now, ds_status = ''ready''\<rparr>"
    then obtain n where eq: "document_sets (snd (process_and_store_documents_try B st
                                file_paths user_id batch_size uuid_hex now))
          = db_store_document_set (document_sets st)
              \<lparr>ds_id = ''user_'' @ user_id @ ''_'' @ take 8 uuid_hex, ds_user_id = user_id,
               ds_file_paths = file_paths, ds_chunk_count = n,
               ds_created_at = now, ds_status = ''ready''\<rparr>"
      by blast
    show ?thesis
      unfolding eq db_store_document_set_def document_set.simps
      by (rule registry_wf_update [OF assms(1) owner_key_new [OF assms(2)]])
  qed
  show "registry_wf (document_sets (snd (process_and_store_documents B st file_paths
           user_id batch_size uuid_hex now)))"
    using process_document_sets [of B st file_paths user_id batch_size uuid_hex now] t assms(1)
    by (elim disjE) simp_all
  show "registry_wf (document_sets (snd (query_documents B st query namespace caller k)))"
    using assms(1) by (simp add: query_document_sets)
  show "registry_wf (document_sets (snd (delete_document_set st namespace caller)))"
    using delete_document_sets [of st namespace caller] assms(1)
      registry_wf_delete [of "document_sets st" namespace]
    by (elim disjE) (simp_all add: db_delete_document_set_def)
qed


section \<open>A failed batch leaves the registry alone\<close>

lemma registry_written_after_all_batches:
  assumes "document_sets (snd (process_and_store_documents_try B st file_paths user_id
             batch_size uuid_hex now)) \<noteq> document_sets st"
  shows "\<exists>all_docs log idx.
           load_all B file_paths [] (calls st) = (Inr all_docs, log)
           \<and> store_batches B (''user_'' @ user_id @ ''_'' @ take 8 uuid_hex)
                (batch_list batch_size (semantic_chunk_documents all_docs)) (pinecone st) log
              = (None, idx,
                 log @ map (FromDocuments (''user_'' @ user_id @ ''_'' @ take 8 uuid_hex))
                         (batch_list batch_size (semantic_chunk_documents all_docs)))"
proof -
  obtain r log where la: "load_all B file_paths [] (calls st) = (r, log)"
    by (cases "load_all B file_paths [] (calls st)")
  show ?thesis
  proof (cases r)
    case (Inl e)
    with la assms show ?thesis by (simp add: process_and_store_documents_try_def)
  next
    case (Inr all_docs)
    obtain eo idx log' where sb:
      "store_batches B (''user_'' @ user_id @ ''_'' @ take 8 uuid_hex)
         (batch_list batch_size (semantic_chunk_documents all_docs)) (pinecone st) log
       = (eo, idx, log')"
      by (cases "store_batches B (''user_'' @ user_id @ ''_'' @ take 8 uuid_hex)
         (batch_list batch_size (semantic_chunk_documents all_docs)) (pinecone st) log")
    have nz: "batch_size \<noteq> 0"
      using la Inr assms by (auto simp: process_and_store_documents_try_def Let_def)
    have "eo = None"
    proof (cases eo)
      case (Some e)
      with la Inr nz sb assms show ?thesis
        by (simp add: process_and_store_documents_try_def Let_def)
    qed simp
    with sb store_batches_all_written [of B _ _ "pinecone st" log idx log'] la Inr
    show ?thesis by blast
  qed
qed

lemma one_paragraph_page:
  assumes a: "\<not> is_space a" "a \<noteq> CHR 0x0A" and n: "100 < n"
  shows "semantic_chunk_documents [\<lparr>page_content = replicate n a, metadata = md\<rparr>]
         = [\<lparr>page_content = replicate n a, metadata = md\<rparr>]"
proof -
  have sp: "split_blank [] (replicate n a) = [replicate n a]"
    using split_blank_no_newline [of "replicate n a" "[]"] a(2) by simp
  have ne: "replicate n a \<noteq> []" using n by simp
  have s1: "chunk_step md ([], []) (replicate n a) = (replicate n a, [])"
    using ne by (simp add: chunk_step_def strip_replicate [OF a(1)])
  have "chunk_page [] \<lparr>page_content = replicate n a, metadata = md\<rparr>
          = [\<lparr>page_content = replicate n a, metadata = md\<rparr>]"
    unfolding chunk_page_def
    by (simp only: document.simps sp foldl_Cons foldl_Nil s1 Let_def fst_conv snd_conv
        strip_replicate [OF a(1)] ne if_True not_False_eq_True append_Nil)
  then show ?thesis using n by (simp add: semantic_chunk_documents_def)
qed

lemma example_pages_chunks: "semantic_chunk_documents example_pages = example_pages"
proof -
  have x: "semantic_chunk_documents [\<lparr>page_content = replicate 150 CHR ''x'', metadata = ()\<rparr>]
           = [\<lparr>page_content = replicate 150 CHR ''x'', metadata = ()\<rparr>]"
    by (rule one_paragraph_page) (simp_all add: is_space_def)
  have y: "semantic_chunk_documents [\<lparr>page_content = replicate 120 CHR ''y'', metadata = ()\<rparr>]
           = [\<lparr>page_content = replicate 120 CHR ''y'', metadata = ()\<rparr>]"
    by (rule one_paragraph_page) (simp_all add: is_space_def)
  show ?thesis
    unfolding example_pages_def
    by (subst semantic_chunk_documents_concat) (simp add: x y)
qed

lemma example_load:
  "load_all (example_backends flaky) [''will.pdf''] [] (calls example_state)
     = (Inr example_pages, [Load ''will.pdf''])"
  by (simp add: load_documents_def example_backends_def example_state_def)

lemma example_batches_1:
  "batch_list 1 example_pages =
     [[\<lparr>page_content = replicate 150 CHR ''x'', metadata = ()\<rparr>],
      [\<lparr>page_content = replicate 120 CHR ''y'', metadata = ()\<rparr>]]"
  by (simp add: batch_list_def example_pages_def batches.simps [of "Suc 0"])

lemma example_batches_64: "batch_list 64 example_pages = [example_pages]"
  by (simp add: batch_list_def example_pages_def batches.simps [of 64])

text \<open>
  C3. When the files are loaded and the loop over the batches stops with an exception,
  the \<^verbatim>\<open>try\<close> block of the ingestion returns an error result and leaves the
  registry as it was: the list of every user is unchanged, and when the generated namespace
  had no record, a later query for it fails as not found without any call to the index.
  By \<open>registry_written_after_all_batches\<close> the registry is written only when every
  batch has been written.
\<close>

theorem failed_batch_registers_nothing:
  assumes "load_all B file_paths [] (calls st) = (Inr all_docs, log)"
    and "batch_size \<noteq> 0"
    and "store_batches B (''user_'' @ user_id @ ''_'' @ take 8 uuid_hex)
           (batch_list batch_size (semantic_chunk_documents all_docs)) (pinecone st) log
         = (Some e, idx, log')"
  shows "process_and_store_documents_try B st file_paths user_id batch_size uuid_hex now
           = (failure (''Error processing documents: '' @ str_exn e),
              st\<lparr>pinecone := idx, calls := log'\<rparr>)
         \<and> document_sets (st\<lparr>pinecone := idx, calls := log'\<rparr>) = document_sets st
         \<and> get_user_document_sets (st\<lparr>pinecone := idx, calls := log'\<rparr>) u
             = get_user_document_sets st u
         \<and> (db_get_document_set (document_sets st)
               (''user_'' @ user_id @ ''_'' @ take 8 uuid_hex) = None
             \<and> pc B \<and> embeddings B \<and> llm B \<longrightarrow>
             query_documents B (st\<lparr>pinecone := idx, calls := log'\<rparr>) q
               (''user_'' @ user_id @ ''_'' @ take 8 uuid_hex) u k
             = (failure ''Document set not found or access denied'',
                st\<lparr>pinecone := idx, calls := log'\<rparr>))"
proof -
  have "process_and_store_documents_try B st file_paths user_id batch_size uuid_hex now
           = (failure (''Error processing documents: '' @ str_exn e),
              st\<lparr>pinecone := idx, calls := log'\<rparr>)"
    using assms by (simp add: process_and_store_documents_try_def Let_def)
  moreover have "get_user_document_sets (st\<lparr>pinecone := idx, calls := log'\<rparr>) u
             = get_user_document_sets st u"
    by (simp add: get_user_document_sets_def)
  moreover have "db_get_document_set (document_sets st)
               (''user_'' @ user_id @ ''_'' @ take 8 uuid_hex) = None
             \<and> pc B \<and> embeddings B \<and> llm B \<longrightarrow>
             query_documents B (st\<lparr>pinecone := idx, calls := log'\<rparr>) q
               (''user_'' @ user_id @ ''_'' @ take 8 uuid_hex) u k
             = (failure ''Document set not found or access denied'',
                st\<lparr>pinecone := idx, calls := log'\<rparr>)"
    by (simp add: query_documents_def)
  ultimately show ?thesis by simp
qed

theorem failed_batch_registers_nothing_witness:
  "load_all (example_backends True) [''will.pdf''] [] (calls example_state)
     = (Inr example_pages, [Load ''will.pdf''])
   \<and> (1::int) \<noteq> 0
   \<and> store_batches (example_backends True) ''user_alice_9f8e7d6c''
        (batch_list 1 (semantic_chunk_documents example_pages)) (pinecone example_state)
        [Load ''will.pdf'']
      = (Some (Error ''write timed out''),
         [(''user_alice_9f8e7d6c'', [\<lparr>page_content = replicate 150 CHR ''x'', metadata = ()\<rparr>])],
         [Load ''will.pdf'',
          FromDocuments ''user_alice_9f8e7d6c''
            [\<lparr>page_content = replicate 150 CHR ''x'', metadata = ()\<rparr>],
          FromDocuments ''user_alice_9f8e7d6c''
            [\<lparr>page_content = replicate 120 CHR ''y'', metadata = ()\<rparr>]])
   \<and> fst (process_and_store_documents_try (example_backends True) example_state [''will.pdf'']
        ''alice'' 1 ''9f8e7d6c5b4a39281706f5e4d3c2b1a0'' 1700000500)
      = failure ''Error processing documents: write timed out''
   \<and> document_sets (snd (process_and_store_documents_try (example_backends True) example_state
        [''will.pdf''] ''alice'' 1 ''9f8e7d6c5b4a39281706f5e4d3c2b1a0'' 1700000500))
      = document_sets example_state"
proof -
  let ?p1 = "\<lparr>page_content = replicate 150 CHR ''x'', metadata = ()\<rparr>"
  let ?p2 = "\<lparr>page_content = replicate 120 CHR ''y'', metadata = ()\<rparr>"
  have h1: "load_all (example_backends True) [''will.pdf''] [] (calls example_state)
     = (Inr example_pages, [Load ''will.pdf''])"
    by (rule example_load)
  have h2: "(1::int) \<noteq> 0" by simp
  have ns: "''user_'' @ ''alice'' @ ''_'' @ take 8 ''9f8e7d6c5b4a39281706f5e4d3c2b1a0''
            = ''user_alice_9f8e7d6c''" by simp
  have sb: "store_batches (example_backends True) ''user_alice_9f8e7d6c''
        (batch_list 1 (semantic_chunk_documents example_pages)) (pinecone example_state)
        [Load ''will.pdf'']
      = (Some (Error ''write timed out''),
         [(''user_alice_9f8e7d6c'', [?p1])],
         [Load ''will.pdf'', FromDocuments ''user_alice_9f8e7d6c'' [?p1],
          FromDocuments ''user_alice_9f8e7d6c'' [?p2]])"
    unfolding example_pages_chunks example_batches_1
    by (simp add: example_backends_def example_state_def)
  have h3: "store_batches (example_backends True)
        (''user_'' @ ''alice'' @ ''_'' @ take 8 ''9f8e7d6c5b4a39281706f5e4d3c2b1a0'')
        (batch_list 1 (semantic_chunk_documents example_pages)) (pinecone example_state)
        [Load ''will.pdf'']
      = (Some (Error ''write timed out''),
         [(''user_alice_9f8e7d6c'', [?p1])],
         [Load ''will.pdf'', FromDocuments ''user_alice_9f8e7d6c'' [?p1],
          FromDocuments ''user_alice_9f8e7d6c'' [?p2]])"
    unfolding ns by (rule sb)
  from failed_batch_registers_nothing [OF h1 h2 h3, of 1700000500 "''alice''" "''q''" 5]
  have "process_and_store_documents_try (example_backends True) example_state [''will.pdf'']
        ''alice'' 1 ''9f8e7d6c5b4a39281706f5e4d3c2b1a0'' 1700000500
      = (failure (''Error processing documents: '' @ str_exn (Error ''write timed out'')),
         example_state\<lparr>pinecone := [(''user_alice_9f8e7d6c'', [?p1])],
           calls := [Load ''will.pdf'', FromDocuments ''user_alice_9f8e7d6c'' [?p1],
                     FromDocuments ''user_alice_9f8e7d6c'' [?p2]]\<rparr>)"
    by blast
  then have "fst (process_and_store_documents_try (example_backends True) example_state
        [''will.pdf''] ''alice'' 1 ''9f8e7d6c5b4a39281706f5e4d3c2b1a0'' 1700000500)
      = failure ''Error processing documents: write timed out''
   \<and> document_sets (snd (process_and_store_documents_try (example_backends True) example_state
        [''will.pdf''] ''alice'' 1 ''9f8e7d6c5b4a39281706f5e4d3c2b1a0'' 1700000500))
      = document_sets example_state"
    by simp
  with h1 h2 sb show ?thesis by blast
qed


section \<open>The owner of a record never changes\<close>

text \<open>
  C9. In a registry whose entries have the shape the ingestion writes, no operation of
  the service changes the owner of a record that exists: the ingestion (also its
  \<^verbatim>\<open>try\<close> block alone, when the generated namespace collides with an existing
  one), the query and the deletion. Storing a record changes the entry of its own
  identifier only and keeps the keys distinct.
\<close>

theorem owner_never_changes:
  assumes wf: "registry_wf (document_sets st)"
    and hex: "length uuid_hex = 32"
    and rec: "db_get_document_set (document_sets st) ns = Some ds"
  shows "(\<forall>ds'. db_get_document_set (document_sets (snd (process_and_store_documents B st
                   file_paths user_id batch_size uuid_hex now))) ns = Some ds'
               \<longrightarrow> ds_user_id ds' = ds_user_id ds)
       \<and> (\<forall>ds'. db_get_document_set (document_sets (snd (process_and_store_documents_try B st
                   file_paths user_id batch_size uuid_hex now))) ns = Some ds'
               \<longrightarrow> ds_user_id ds' = ds_user_id ds)
       \<and> (\<forall>ds'. db_get_document_set (document_sets (snd (query_documents B st
                   query namespace caller k))) ns = Some ds'
               \<longrightarrow> ds_user_id ds' = ds_user_id ds)
       \<and> (\<forall>ds'. db_get_document_set (document_sets (snd (delete_document_set st
                   namespace caller))) ns = Some ds'
               \<longrightarrow> ds_user_id ds' = ds_user_id ds)
       \<and> (\<forall>key. key \<noteq> ds_id d \<longrightarrow>
             db_get_document_set (db_store_document_set db d) key = db_get_document_set db key)
       \<and> db_get_document_set (db_store_document_set db d) (ds_id d) = Some d
       \<and> (distinct (map fst db) \<longrightarrow> distinct (map fst (db_store_document_set db d)))"
proof -
  from rec have rec': "map_of (document_sets st) ns = Some ds"
    by (simp add: db_get_document_set_def)
  have tr: "ds_user_id ds' = ds_user_id ds"
    if "db_get_document_set (document_sets (snd (process_and_store_documents_try B st
          file_paths user_id batch_size uuid_hex now))) ns = Some ds'" for ds'
    using try_document_sets [of B st file_paths user_id batch_size uuid_hex now]
  proof
    assume "document_sets (snd (process_and_store_documents_try B st file_paths user_id
               batch_size uuid_hex now)) = document_sets st"
    with that rec show ?thesis by simp
  next
    assume "\<exists>n. document_sets (snd (process_and_store_documents_try B st file_paths user_id
                                batch_size uuid_hex now))
          = db_store_document_set (document_sets st)
              \<lparr>ds_id = ''user_'' @ user_id @ ''_'' @ take 8 uuid_hex, ds_user_id = user_id,
               ds_file_paths = file_paths, ds_chunk_count = n,
               ds_created_at = now, ds_status = ''ready''\<rparr>"
    then obtain n where eq: "document_sets (snd (process_and_store_documents_try B st
                                file_paths user_id batch_size uuid_hex now))
          = db_store_document_set (document_sets st)
              \<lparr>ds_id = ''user_'' @ user_id @ ''_'' @ take 8 uuid_hex, ds_user_id = user_id,
               ds_file_paths = file_paths, ds_chunk_count = n,
               ds_created_at = now, ds_status = ''ready''\<rparr>"
      by blast
    from that have "map_of (document_sets (snd (process_and_store_documents_try B st
                                file_paths user_id batch_size uuid_hex now))) ns = Some ds'"
      by (simp only: db_get_document_set_def)
    then have "map_of (db_store_document_set (document_sets st)
              \<lparr>ds_id = ''user_'' @ user_id @ ''_'' @ take 8 uuid_hex, ds_user_id = user_id,
               ds_file_paths = file_paths, ds_chunk_count = n,
               ds_created_at = now, ds_status = ''ready''\<rparr>) ns = Some ds'"
      by (simp only: eq)
    from store_keeps_owner [OF wf hex rec' this] show ?thesis .
  qed
  have full: "ds_user_id ds' = ds_user_id ds"
    if "db_get_document_set (document_sets (snd (process_and_store_documents B st
          file_paths user_id batch_size uuid_hex now))) ns = Some ds'" for ds'
    using process_document_sets [of B st file_paths user_id batch_size uuid_hex now]
      that rec tr by (elim disjE) simp_all
  have qry: "ds_user_id ds' = ds_user_id ds"
    if "db_get_document_set (document_sets (snd (query_documents B st
          query namespace caller k))) ns = Some ds'" for ds'
    using that rec by (simp add: query_document_sets)
  have dl: "ds_user_id ds' = ds_user_id ds"
    if "db_get_document_set (document_sets (snd (delete_document_set st
          namespace caller))) ns = Some ds'" for ds'
    using delete_document_sets [of st namespace caller] that rec
      delete_keeps_record [of "document_sets st" namespace ns ds']
    by (elim disjE) (simp_all add: db_get_document_set_def)
  have keys: "\<forall>key. key \<noteq> ds_id d \<longrightarrow>
             db_get_document_set (db_store_document_set db d) key = db_get_document_set db key"
    and same: "db_get_document_set (db_store_document_set db d) (ds_id d) = Some d"
    by (simp_all add: db_get_document_set_def db_store_document_set_def update_conv')
  have dist: "distinct (map fst db) \<longrightarrow> distinct (map fst (db_store_document_set db d))"
    by (simp add: db_store_document_set_def distinct_update)
  from tr full qry dl keys same dist show ?thesis by blast
qed

theorem owner_never_changes_witness:
  "registry_wf (document_sets example_state)
   \<and> length ''0a1b2c3d5b4a39281706f5e4d3c2b1a0'' = 32
   \<and> db_get_document_set (document_sets example_state) ''user_bob_0a1b2c3d''
      = Some \<lparr>ds_id = ''user_bob_0a1b2c3d'', ds_user_id = ''bob'',
              ds_file_paths = [''lease.pdf''], ds_chunk_count = 2,
              ds_created_at = 1700000000, ds_status = ''ready''\<rparr>
   \<and> db_get_document_set (document_sets (snd (process_and_store_documents_try
        (example_backends False) example_state [''will.pdf''] ''bob'' 64
        ''0a1b2c3d5b4a39281706f5e4d3c2b1a0'' 1700000500))) ''user_bob_0a1b2c3d''
      = Some \<lparr>ds_id = ''user_bob_0a1b2c3d'', ds_user_id = ''bob'',
              ds_file_paths = [''will.pdf''], ds_chunk_count = 2,
              ds_created_at = 1700000500, ds_status = ''ready''\<rparr>
   \<and> ds_user_id \<lparr>ds_id = ''user_bob_0a1b2c3d'', ds_user_id = ''bob'',
              ds_file_paths = [''will.pdf''], ds_chunk_count = 2,
              ds_created_at = 1700000500, ds_status = ''ready''\<rparr>
      = ds_user_id \<lparr>ds_id = ''user_bob_0a1b2c3d'', ds_user_id = ''bob'',
              ds_file_paths = [''lease.pdf''], ds_chunk_count = 2,
              ds_created_at = 1700000000, ds_status = ''ready''\<rparr>"
proof -
  let ?old = "\<lparr>ds_id = ''user_bob_0a1b2c3d'', ds_user_id = ''bob'',
              ds_file_paths = [''lease.pdf''], ds_chunk_count = 2,
              ds_created_at = 1700000000, ds_status = ''ready''\<rparr>"
  let ?new = "\<lparr>ds_id = ''user_bob_0a1b2c3d'', ds_user_id = ''bob'',
              ds_file_paths = [''will.pdf''], ds_chunk_count = 2,
              ds_created_at = 1700000500, ds_status = ''ready''\<rparr>"
  have h1: "registry_wf (document_sets example_state)" by (rule registry_wf_example)
  have h2: "length ''0a1b2c3d5b4a39281706f5e4d3c2b1a0'' = 32" by simp
  have h3: "db_get_document_set (document_sets example_state) ''user_bob_0a1b2c3d'' = Some ?old"
    by (simp add: db_get_document_set_def example_state_def)
  have sb: "store_batches (example_backends False) ''user_bob_0a1b2c3d'' [example_pages]
              (pinecone example_state) [Load ''will.pdf'']
            = (None, [(''user_bob_0a1b2c3d'', example_pages)],
               [Load ''will.pdf'', FromDocuments ''user_bob_0a1b2c3d'' example_pages])"
    by (simp add: example_backends_def example_state_def)
  have ns: "''user_'' @ ''bob'' @ ''_'' @ take 8 ''0a1b2c3d5b4a39281706f5e4d3c2b1a0''
            = ''user_bob_0a1b2c3d''" by simp
  have len: "length example_pages = 2" by (simp add: example_pages_def)
  have run: "db_get_document_set (document_sets (snd (process_and_store_documents_try
        (example_backends False) example_state [''will.pdf''] ''bob'' 64
        ''0a1b2c3d5b4a39281706f5e4d3c2b1a0'' 1700000500))) ''user_bob_0a1b2c3d'' = Some ?new"
    unfolding process_and_store_documents_try_def Let_def example_load prod.case sum.case
      example_pages_chunks example_batches_64 ns sb
    by (simp add: len db_get_document_set_def db_store_document_set_def example_state_def)
  from owner_never_changes [OF h1 h2 h3, of "example_backends False" "[''will.pdf'']" "''bob''" 64
      1700000500] run
  have "ds_user_id ?new = ds_user_id ?old" by blast
  with h1 h2 h3 run show ?thesis by blast
qed


end
